theory Spec2Isabelle
  imports Main "HOL-Library.Multiset"
begin

section \<open>The Ansible setup provider of ElastiCluster\<close>

text \<open>
  A shallow embedding of \<^verbatim>\<open>elasticluster/providers/ansible_provider.py\<close>:
  the class \<^verbatim>\<open>AnsibleSetupProvider\<close> with its constructor, \<^verbatim>\<open>setup_cluster\<close>,
  \<^verbatim>\<open>_build_inventory\<close> and \<^verbatim>\<open>cleanup\<close>.

  The module is Python 2 code (Ansible 1.x command line, \<^verbatim>\<open>'v' * verbosity\<close> applied to
  the result of \<^verbatim>\<open>/\<close>): \<^verbatim>\<open>/\<close> on two integers is floor division, a \<^verbatim>\<open>str\<close> is a
  byte string, and the white space of \<^verbatim>\<open>str.strip\<close> and of \<^verbatim>\<open>\s\<close> is the six ASCII
  characters space, tab, line feed, carriage return, vertical tab and form feed.

  Everything outside the process is explicit state: the file system, the process
  environment, the external tool and the record of the child processes launched are
  fields of a \<open>world\<close>. Exceptions are values of the type \<open>error\<close>. Log messages are
  not modelled.
\<close>

subsection \<open>Exceptions\<close>

datatype error = AnsibleError string | OSError | IOError

fun is_OSError :: "error \<Rightarrow> bool" where
  "is_OSError OSError = True"
| "is_OSError _ = False"

subsection \<open>The collaborators: nodes and clusters\<close>

text \<open>
  What the provider reads of a node and of a cluster: \<^verbatim>\<open>node.kind\<close>, \<^verbatim>\<open>node.name\<close>,
  \<^verbatim>\<open>node.preferred_ip\<close> and \<^verbatim>\<open>node.image_user\<close>, all strings; \<^verbatim>\<open>cluster.name\<close>,
  \<^verbatim>\<open>cluster.get_all_nodes()\<close> and \<^verbatim>\<open>cluster.user_key_private\<close>.
\<close>

record node =
  kind :: string
  name :: string
  preferred_ip :: string
  image_user :: string

record cluster =
  cluster_name :: string
  get_all_nodes :: "node list"
  user_key_private :: string

subsection \<open>The provider object\<close>

text \<open>
  The attributes of an \<^verbatim>\<open>AnsibleSetupProvider\<close> after \<^verbatim>\<open>__init__\<close>. The dictionary
  \<^verbatim>\<open>groups\<close> is a map from node kinds to lists of group names; \<^verbatim>\<open>environment\<close> maps a
  node kind to a dictionary of variables, which the provider only reads: it is given
  as the list \<^verbatim>\<open>items()\<close> returns for it, in the order of that list. The keyword
  arguments collected in \<^verbatim>\<open>extra_conf\<close> are never read and are left out.
\<close>

record provider =
  groups :: "string \<rightharpoonup> string list"
  playbook_path :: string
  environment :: "string \<rightharpoonup> (string \<times> string) list"
  storage_path :: string
  storage_path_tmp :: bool
  sudo :: bool
  sudo_user :: string
  ansible_module_dir :: "string list"
  ssh_pipelining :: bool

definition inventory_file_ending :: string where
  "inventory_file_ending = ''ansible-inventory''"

subsection \<open>The world: file system, environment, external tool\<close>

datatype entry = File string | Dir

text \<open>
  The file system is an association list from path strings to entries; paths are
  compared as strings, and there are no symbolic links. The paths whose
  removal the operating system refuses (permissions, a race with another process) are
  listed in \<open>undeletable\<close>. \<open>ansible_playbook\<close> is the external tool: the exit code it
  gives for a command line and an environment, or \<open>None\<close> when the program cannot be
  started. \<open>launched\<close> records every child process started through
  \<^verbatim>\<open>subprocess.call\<close>. \<open>realpath\<close> stands for \<^verbatim>\<open>os.path.realpath\<close>, which depends on the
  working directory and on symbolic links. \<open>dict_rank\<close> stands for the hashing of
  strings, which decides the order in which a dictionary built by the program is
  iterated.
\<close>

record world =
  fs :: "(string \<times> entry) list"
  undeletable :: "string list"
  os_environ :: "string \<rightharpoonup> string"
  current_home :: string
  passwd :: "string \<rightharpoonup> string"
  tmp_names :: "string list"
  sys_prefix :: string
  log_level :: int
  realpath :: "string \<Rightarrow> string"
  ansible_playbook :: "string list \<Rightarrow> (string \<rightharpoonup> string) \<Rightarrow> int option"
  launched :: "(string list \<times> (string \<rightharpoonup> string)) list"
  dict_rank :: "string \<Rightarrow> nat"

text \<open>The empty path names nothing: \<^verbatim>\<open>os.stat('')\<close> fails.\<close>

definition lookup :: "world \<Rightarrow> string \<Rightarrow> entry option" where
  "lookup w p = (if p = [] then None else map_of (fs w) p)"

text \<open>\<^verbatim>\<open>os.path.exists\<close> and \<^verbatim>\<open>os.path.isfile\<close>.\<close>

definition path_exists :: "world \<Rightarrow> string \<Rightarrow> bool" where
  "path_exists w p = (lookup w p \<noteq> None)"

definition isfile :: "world \<Rightarrow> string \<Rightarrow> bool" where
  "isfile w p = (case lookup w p of Some (File _) \<Rightarrow> True | _ \<Rightarrow> False)"

definition isdir :: "world \<Rightarrow> string \<Rightarrow> bool" where
  "isdir w p = (lookup w p = Some Dir)"

text \<open>
  \<^verbatim>\<open>os.path.join(a, b)\<close> of \<^verbatim>\<open>posixpath\<close>: an absolute \<open>b\<close> replaces \<open>a\<close>; otherwise a
  slash is inserted unless \<open>a\<close> is empty or already ends with one.
\<close>

definition path_join :: "string \<Rightarrow> string \<Rightarrow> string" where
  "path_join a b =
     (if b \<noteq> [] \<and> hd b = CHR ''/'' then b
      else if a = [] \<or> last a = CHR ''/'' then a @ b
      else a @ ''/'' @ b)"

definition dir_prefix :: "string \<Rightarrow> string" where
  "dir_prefix d = (if d \<noteq> [] \<and> last d = CHR ''/'' then d else d @ ''/'')"

fun strip_prefix :: "string \<Rightarrow> string \<Rightarrow> string option" where
  "strip_prefix [] ys = Some ys"
| "strip_prefix (x # xs) [] = None"
| "strip_prefix (x # xs) (y # ys) = (if x = y then strip_prefix xs ys else None)"

text \<open>The name under which the path \<open>p\<close> is listed in the directory \<open>d\<close>, if it is.\<close>

definition child_name :: "string \<Rightarrow> string \<Rightarrow> string option" where
  "child_name d p =
     (case strip_prefix (dir_prefix d) p of
        None \<Rightarrow> None
      | Some n \<Rightarrow> if n \<noteq> [] \<and> CHR ''/'' \<notin> set n then Some n else None)"

definition children :: "world \<Rightarrow> string \<Rightarrow> string list" where
  "children w d = remdups (List.map_filter (child_name d) (map fst (fs w)))"

text \<open>\<^verbatim>\<open>os.listdir\<close>: raises \<^verbatim>\<open>OSError\<close> unless the path is a directory.\<close>

definition listdir :: "world \<Rightarrow> string \<Rightarrow> error + string list" where
  "listdir w d = (if isdir w d then Inr (children w d) else Inl OSError)"

definition remove_path :: "string \<Rightarrow> (string \<times> entry) list \<Rightarrow> (string \<times> entry) list" where
  "remove_path p xs = filter (\<lambda>(q, e). q \<noteq> p) xs"

text \<open>
  \<^verbatim>\<open>os.unlink\<close>: removes a regular file; raises \<^verbatim>\<open>OSError\<close> when the path is missing,
  is a directory, or its removal is refused.
\<close>

definition unlink :: "world \<Rightarrow> string \<Rightarrow> error + world" where
  "unlink w p =
     (if isfile w p \<and> p \<notin> set (undeletable w)
      then Inr (w\<lparr>fs := remove_path p (fs w)\<rparr>)
      else Inl OSError)"

text \<open>
  \<^verbatim>\<open>shutil.rmtree\<close>: removes a directory and everything below it; raises \<^verbatim>\<open>OSError\<close>
  when the path is not a directory or the removal is refused.
\<close>

definition below :: "string \<Rightarrow> string \<Rightarrow> bool" where
  "below d p = (p = d \<or> strip_prefix (dir_prefix d) p \<noteq> None)"

definition rmtree :: "world \<Rightarrow> string \<Rightarrow> error + world" where
  "rmtree w d =
     (if isdir w d \<and> d \<notin> set (undeletable w)
      then Inr (w\<lparr>fs := filter (\<lambda>(q, e). \<not> below d q) (fs w)\<rparr>)
      else Inl OSError)"

subsection \<open>Naming of the inventory artifact\<close>

text \<open>\<^verbatim>\<open>'%s.%s' % (AnsibleSetupProvider.inventory_file_ending, cluster.name)\<close>\<close>

definition fname :: "cluster \<Rightarrow> string" where
  "fname c = inventory_file_ending @ ''.'' @ cluster_name c"

definition inventory_path_of :: "provider \<Rightarrow> cluster \<Rightarrow> string" where
  "inventory_path_of p c = path_join (storage_path p) (fname c)"

subsection \<open>cleanup\<close>

text \<open>
  The handler \<^verbatim>\<open>except OSError as ex\<close>: an \<^verbatim>\<open>OSError\<close> raised in the \<^verbatim>\<open>try\<close> block is
  logged and dropped, in the state the world had when it was raised; any other
  exception propagates.
\<close>

definition except_OSError :: "error \<Rightarrow> world \<Rightarrow> error + world" where
  "except_OSError ex w = (if is_OSError ex then Inr w else Inl ex)"

definition cleanup :: "provider \<Rightarrow> cluster \<Rightarrow> world \<Rightarrow> error + world" where
  "cleanup p c w =
     (if storage_path p \<noteq> [] \<and> path_exists w (storage_path p) then
        let inventory_path = path_join (storage_path p) (fname c) in
        if path_exists w inventory_path then
          (case unlink w inventory_path of
             Inl ex \<Rightarrow> except_OSError ex w
           | Inr w1 \<Rightarrow>
               if storage_path_tmp p then
                 (case listdir w1 (storage_path p) of
                    Inl ex \<Rightarrow> except_OSError ex w1
                  | Inr names \<Rightarrow>
                      if length names = 0 then
                        (case rmtree w1 (storage_path p) of
                           Inl ex \<Rightarrow> except_OSError ex w1
                         | Inr w2 \<Rightarrow> Inr w2)
                      else Inr w1)
               else Inr w1)
        else Inr w
      else Inr w)"

subsection \<open>Strings\<close>

text \<open>\<^verbatim>\<open>sep.join(xs)\<close>\<close>

fun str_join :: "string \<Rightarrow> string list \<Rightarrow> string" where
  "str_join sep [] = []"
| "str_join sep [x] = x"
| "str_join sep (x # y # ys) = x @ sep @ str_join sep (y # ys)"

definition is_space :: "char \<Rightarrow> bool" where
  "is_space c = (c \<in> set [CHR '' '', CHR 0x09, CHR 0x0A, CHR 0x0D, CHR 0x0B, CHR 0x0C])"

text \<open>\<^verbatim>\<open>s.strip()\<close>\<close>

definition strip :: "string \<Rightarrow> string" where
  "strip s = rev (dropWhile is_space (rev (dropWhile is_space s)))"

definition rstrip_slash :: "string \<Rightarrow> string" where
  "rstrip_slash s = rev (dropWhile (\<lambda>c. c = CHR ''/'') (rev s))"

subsection \<open>The regular expression \<^verbatim>\<open>_PATH_SPLIT_RE\<close>\<close>

text \<open>
  \<^verbatim>\<open>re.compile(r'\s* [,:] \s*', re.X)\<close>: in verbose mode the blanks of the pattern are
  ignored, so the pattern is \<^verbatim>\<open>\s*[,:]\s*\<close>. \<open>match_sep s\<close> is the match of the pattern
  at the start of \<open>s\<close>: the white space is consumed greedily on both sides of one
  separator character, and what follows the match is returned.
\<close>

definition is_sep :: "char \<Rightarrow> bool" where
  "is_sep c = (c = CHR '','' \<or> c = CHR '':'')"

definition match_sep :: "string \<Rightarrow> string option" where
  "match_sep s =
     (case dropWhile is_space s of
        [] \<Rightarrow> None
      | c # r \<Rightarrow> if is_sep c then Some (dropWhile is_space r) else None)"

lemma match_sep_shorter: "match_sep s = Some r \<Longrightarrow> length r < length s"
proof -
  assume m: "match_sep s = Some r"
  then obtain c t where d: "dropWhile is_space s = c # t" and r: "r = dropWhile is_space t"
    by (auto simp: match_sep_def split: list.splits if_splits)
  have "length r \<le> length t"
    unfolding r by (rule length_dropWhile_le)
  moreover have "length (c # t) \<le> length s"
    unfolding d [symmetric] by (rule length_dropWhile_le)
  ultimately show ?thesis by simp
qed

text \<open>
  \<^verbatim>\<open>_PATH_SPLIT_RE.split(s)\<close>: the string is scanned from the left; at the leftmost
  position where the pattern matches, the piece read so far is closed and the scan
  goes on after the match. \<open>cur\<close> is the piece read so far.
\<close>

function PATH_SPLIT_RE_split :: "string \<Rightarrow> string \<Rightarrow> string list" where
  "PATH_SPLIT_RE_split cur [] = [cur]"
| "PATH_SPLIT_RE_split cur (c # cs) =
     (case match_sep (c # cs) of
        Some rest \<Rightarrow> cur # PATH_SPLIT_RE_split [] rest
      | None \<Rightarrow> PATH_SPLIT_RE_split (cur @ [c]) cs)"
  by pat_completeness auto
termination
  by (relation "measure (\<lambda>(cur, s). length s)") (auto dest: match_sep_shorter)

text \<open>
  The spec's words, for comparison: split at every comma or colon, then trim each
  piece.
\<close>

fun split_at_seps :: "string \<Rightarrow> string \<Rightarrow> string list" where
  "split_at_seps cur [] = [cur]"
| "split_at_seps cur (c # cs) =
     (if is_sep c then cur # split_at_seps [] cs else split_at_seps (cur @ [c]) cs)"

definition split_and_trim :: "string \<Rightarrow> string list" where
  "split_and_trim s = map strip (split_at_seps [] s)"

subsection \<open>Library functions used by the constructor\<close>

text \<open>
  \<^verbatim>\<open>os.path.expanduser\<close> of \<^verbatim>\<open>posixpath\<close>: a leading \<^verbatim>\<open>~\<close> or \<^verbatim>\<open>~user\<close> is replaced by
  the home directory (\<^verbatim>\<open>$HOME\<close>, else the password database); an unknown user leaves
  the path unchanged.
\<close>

definition expanduser :: "world \<Rightarrow> string \<Rightarrow> string" where
  "expanduser w path =
     (case path of
        [] \<Rightarrow> path
      | c # rest \<Rightarrow>
          if c \<noteq> CHR ''~'' then path
          else
            let user = takeWhile (\<lambda>c. c \<noteq> CHR ''/'') rest;
                tail = dropWhile (\<lambda>c. c \<noteq> CHR ''/'') rest;
                home = (if user = []
                        then (case os_environ w ''HOME'' of
                                None \<Rightarrow> Some (current_home w)
                              | Some h \<Rightarrow> Some h)
                        else passwd w user)
            in (case home of
                  None \<Rightarrow> path
                | Some userhome \<Rightarrow>
                    let r = rstrip_slash userhome @ tail in if r = [] then ''/'' else r))"

text \<open>
  \<^verbatim>\<open>os.path.expandvars\<close> of \<^verbatim>\<open>posixpath\<close>: every \<^verbatim>\<open>$name\<close> and \<^verbatim>\<open>${name}\<close> whose name
  is set in the environment is replaced by its value; the others are left as they
  are. \<open>var_token s\<close> reads what follows a dollar sign: the text of the reference, the
  name, and the rest of the string.
\<close>

definition is_word :: "char \<Rightarrow> bool" where
  "is_word c = (c \<in> set ''abcdefghijklmnopqrstuvwxyzABCDEFGHIJKLMNOPQRSTUVWXYZ0123456789_'')"

definition var_token :: "string \<Rightarrow> (string \<times> string \<times> string) option" where
  "var_token s =
     (let nm = takeWhile is_word s in
      if nm \<noteq> [] then Some (nm, nm, dropWhile is_word s)
      else (case s of
              [] \<Rightarrow> None
            | c # r \<Rightarrow>
                if c = CHR ''{'' \<and> CHR ''}'' \<in> set r
                then let nm = takeWhile (\<lambda>c. c \<noteq> CHR ''}'') r
                     in Some (''{'' @ nm @ ''}'', nm, tl (dropWhile (\<lambda>c. c \<noteq> CHR ''}'') r))
                else None))"

lemma var_token_shorter: "var_token s = Some (tok, nm, rest) \<Longrightarrow> length rest \<le> length s"
proof -
  assume v: "var_token s = Some (tok, nm, rest)"
  have a: "length (dropWhile is_word s) \<le> length s"
    by (rule length_dropWhile_le)
  have b: "length (tl (dropWhile (\<lambda>c. c \<noteq> CHR ''}'') r)) \<le> length r" for r
    using length_dropWhile_le [of "\<lambda>c. c \<noteq> CHR ''}''" r] by simp
  from v a b show ?thesis
    by (auto simp: var_token_def Let_def le_SucI split: if_splits list.splits)
qed

function expandvars_env :: "(string \<rightharpoonup> string) \<Rightarrow> string \<Rightarrow> string" where
  "expandvars_env env [] = []"
| "expandvars_env env (c # cs) =
     (if c \<noteq> CHR ''$'' then c # expandvars_env env cs
      else (case var_token cs of
              None \<Rightarrow> c # expandvars_env env cs
            | Some (tok, nm, rest) \<Rightarrow>
                (case env nm of
                   None \<Rightarrow> c # tok @ expandvars_env env rest
                 | Some v \<Rightarrow> v @ expandvars_env env rest)))"
  by pat_completeness auto
termination
  by (relation "measure (\<lambda>(env, s). length s)") (auto dest: var_token_shorter)

definition expandvars :: "world \<Rightarrow> string \<Rightarrow> string" where
  "expandvars w path = expandvars_env (os_environ w) path"

text \<open>\<^verbatim>\<open>os.path.isabs\<close>\<close>

definition isabs :: "string \<Rightarrow> bool" where
  "isabs p = (p \<noteq> [] \<and> hd p = CHR ''/'')"

text \<open>
  The proper ancestors of a path: its prefixes that end just before a slash.
  \<^verbatim>\<open>os.makedirs\<close> creates the directory and every missing ancestor, and raises
  \<^verbatim>\<open>OSError\<close> when the path is empty or already exists, or an ancestor is not a
  directory.
\<close>

definition ancestors :: "string \<Rightarrow> string list" where
  "ancestors p =
     map (\<lambda>i. take i p)
       (filter (\<lambda>i. p ! i = CHR ''/'' \<and> p ! (i - 1) \<noteq> CHR ''/'') [1..<length p])"

definition makedirs :: "world \<Rightarrow> string \<Rightarrow> error + world" where
  "makedirs w p =
     (if p = [] \<or> path_exists w p
         \<or> (\<exists>a \<in> set (ancestors p). path_exists w a \<and> \<not> isdir w a)
      then Inl OSError
      else Inr (w\<lparr>fs := map (\<lambda>a. (a, Dir))
                          (filter (\<lambda>a. \<not> path_exists w a) (ancestors p @ [p])) @ fs w\<rparr>))"

text \<open>
  \<^verbatim>\<open>tempfile.mkdtemp\<close>: creates a directory under the first candidate name that is not
  in use and returns the name.
\<close>

definition mkdtemp :: "world \<Rightarrow> error + (string \<times> world)" where
  "mkdtemp w =
     (case filter (\<lambda>n. n \<noteq> [] \<and> \<not> path_exists w n) (tmp_names w) of
        [] \<Rightarrow> Inl IOError
      | n # _ \<Rightarrow> Inr (n, w\<lparr>fs := (n, Dir) # fs w\<rparr>))"

subsection \<open>The constructor\<close>

text \<open>
  \<^verbatim>\<open>__init__\<close>. An optional argument is \<open>None\<close> when it is not given; Python's test
  \<^verbatim>\<open>if x\<close> is false for \<^verbatim>\<open>None\<close> and for the empty string.
\<close>

definition truthy :: "string option \<Rightarrow> bool" where
  "truthy x = (case x of None \<Rightarrow> False | Some s \<Rightarrow> s \<noteq> [])"

definition default_playbook_path :: "world \<Rightarrow> string" where
  "default_playbook_path w =
     path_join (path_join (sys_prefix w) ''share/elasticluster/providers/ansible-playbooks'')
       ''site.yml''"

definition resolve_playbook_path :: "world \<Rightarrow> string option \<Rightarrow> string" where
  "resolve_playbook_path w playbook_path_arg =
     (if \<not> truthy playbook_path_arg then default_playbook_path w
      else expandvars w (expanduser w (the playbook_path_arg)))"

definition resolve_storage_path :: "world \<Rightarrow> string option \<Rightarrow> error + (string \<times> bool \<times> world)" where
  "resolve_storage_path w storage_path_arg =
     (if truthy storage_path_arg then
        let sp = expandvars w (expanduser w (the storage_path_arg)) in
        if \<not> path_exists w sp then
          (case makedirs w sp of
             Inl ex \<Rightarrow> Inl ex
           | Inr w' \<Rightarrow> Inr (sp, False, w'))
        else Inr (sp, False, w)
      else
        (case mkdtemp w of
           Inl ex \<Rightarrow> Inl ex
         | Inr (d, w') \<Rightarrow> Inr (d, True, w')))"

definition parse_module_dir :: "string option \<Rightarrow> string list" where
  "parse_module_dir ansible_module_dir_arg =
     (if truthy ansible_module_dir_arg
      then map strip (PATH_SPLIT_RE_split [] (the ansible_module_dir_arg))
      else [])"

definition init ::
  "(string \<rightharpoonup> string list) \<Rightarrow> string option \<Rightarrow> (string \<rightharpoonup> (string \<times> string) list) \<Rightarrow>
   string option \<Rightarrow> bool \<Rightarrow> string \<Rightarrow> string option \<Rightarrow> bool \<Rightarrow> world \<Rightarrow>
   error + (provider \<times> world)" where
  "init groups_arg playbook_path_arg environment_vars storage_path_arg sudo_arg sudo_user_arg
        ansible_module_dir_arg ssh_pipelining_arg w =
     (case resolve_storage_path w storage_path_arg of
        Inl ex \<Rightarrow> Inl ex
      | Inr (sp, tmp, w') \<Rightarrow>
          Inr (\<lparr>groups = groups_arg,
                playbook_path = resolve_playbook_path w playbook_path_arg,
                environment = environment_vars,
                storage_path = sp,
                storage_path_tmp = tmp,
                sudo = sudo_arg,
                sudo_user = sudo_user_arg,
                ansible_module_dir = parse_module_dir ansible_module_dir_arg,
                ssh_pipelining = ssh_pipelining_arg\<rparr>, w'))"

subsection \<open>The inventory document\<close>

text \<open>
  A host entry is the triple \<^verbatim>\<open>(node.name, public_ip, str.join(' ', extra_vars))\<close>. The
  dictionary \<^verbatim>\<open>inventory\<close> is an association list with one entry per group, kept in the
  order in which the groups were first used. That is not the order in which
  \<^verbatim>\<open>inventory.items()\<close> is read: see \<open>dict_items\<close> below.
\<close>

type_synonym host = "string \<times> string \<times> string"

type_synonym inventory = "(string \<times> host list) list"

definition extra_vars :: "provider \<Rightarrow> node \<Rightarrow> string list" where
  "extra_vars p n =
     (''ansible_ssh_user='' @ image_user n) #
     (case environment p (kind n) of
        None \<Rightarrow> []
      | Some kvs \<Rightarrow> map (\<lambda>(k, v). k @ ''='' @ v) kvs)"

definition host_entry :: "provider \<Rightarrow> node \<Rightarrow> host" where
  "host_entry p n = (name n, preferred_ip n, str_join '' '' (extra_vars p n))"

text \<open>
  \<^verbatim>\<open>if group not in inventory: inventory[group] = []\<close> followed by
  \<^verbatim>\<open>inventory[group].append(h)\<close>.
\<close>

fun inventory_append :: "inventory \<Rightarrow> string \<Rightarrow> host \<Rightarrow> inventory" where
  "inventory_append [] g h = [(g, [h])]"
| "inventory_append ((g', hs) # doc) g h =
     (if g' = g then (g', hs @ [h]) # doc else (g', hs) # inventory_append doc g h)"

text \<open>The loop \<^verbatim>\<open>for group in self.groups[node.kind]\<close>.\<close>

fun add_to_groups :: "inventory \<Rightarrow> string list \<Rightarrow> host \<Rightarrow> inventory" where
  "add_to_groups doc [] h = doc"
| "add_to_groups doc (g # gs) h = add_to_groups (inventory_append doc g h) gs h"

text \<open>The loop \<^verbatim>\<open>for node in cluster.get_all_nodes()\<close>.\<close>

fun collect_nodes :: "provider \<Rightarrow> inventory \<Rightarrow> node list \<Rightarrow> inventory" where
  "collect_nodes p doc [] = doc"
| "collect_nodes p doc (n # ns) =
     collect_nodes p
       (case groups p (kind n) of
          None \<Rightarrow> doc
        | Some gs \<Rightarrow> add_to_groups doc gs (host_entry p n))
       ns"

definition inventory_of :: "provider \<Rightarrow> cluster \<Rightarrow> inventory" where
  "inventory_of p c = collect_nodes p [] (get_all_nodes c)"

text \<open>
  \<^verbatim>\<open>inventory.items()\<close>: a Python 2 dictionary is iterated in the order of its hash
  table. The entries are sorted by the rank \<open>dict_rank\<close> of their keys, entries of equal
  rank staying in the order of first use. The rank is a parameter of the world, and
  every order of the entries is the order of some rank (\<open>dict_items_any_order\<close> below).
\<close>

definition dict_items :: "world \<Rightarrow> inventory \<Rightarrow> inventory" where
  "dict_items w doc = sort_key (\<lambda>s. dict_rank w (fst s)) doc"

text \<open>The position of a key in a list of keys: a rank that gives the list its order.\<close>

definition key_index :: "string list \<Rightarrow> string \<Rightarrow> nat" where
  "key_index ks g = length (takeWhile (\<lambda>k. k \<noteq> g) ks)"


subsection \<open>Writing the inventory file\<close>

text \<open>
  \<^verbatim>\<open>inventory_fd.write\<close> appends to the content of the file. The first argument of the
  two loops is what has been written so far. The test \<^verbatim>\<open>if hosts\<close> only skips the loop
  over an empty list, which writes nothing.
\<close>

definition hostline :: "host \<Rightarrow> string" where
  "hostline h = (case h of (n, a, v) \<Rightarrow> n @ '' ansible_ssh_host='' @ a @ '' '' @ v @ [CHR 0x0A])"

fun write_hosts :: "string \<Rightarrow> host list \<Rightarrow> string" where
  "write_hosts buf [] = buf"
| "write_hosts buf (h # hs) = write_hosts (buf @ hostline h) hs"

fun write_sections :: "string \<Rightarrow> inventory \<Rightarrow> string" where
  "write_sections buf [] = buf"
| "write_sections buf ((section, hosts) # doc) =
     write_sections (write_hosts (buf @ [CHR 0x0A] @ ''['' @ section @ '']'' @ [CHR 0x0A]) hosts) doc"

text \<open>\<^verbatim>\<open>os.path.dirname\<close> of \<^verbatim>\<open>posixpath\<close>.\<close>

definition dirname :: "string \<Rightarrow> string" where
  "dirname p =
     (let head = rev (dropWhile (\<lambda>c. c \<noteq> CHR ''/'') (rev p)) in
      if head \<noteq> [] \<and> (\<exists>c \<in> set head. c \<noteq> CHR ''/'') then rstrip_slash head else head)"

text \<open>
  \<^verbatim>\<open>open(path, 'w+')\<close> followed by the writes and \<^verbatim>\<open>close()\<close>: the file is created or
  replaced. \<^verbatim>\<open>open\<close> raises \<^verbatim>\<open>IOError\<close> when the path is a directory or its directory
  does not exist; a path without a directory part is in the working directory.
\<close>

definition writable :: "world \<Rightarrow> string \<Rightarrow> bool" where
  "writable w path =
     (path \<noteq> [] \<and> \<not> isdir w path \<and> (dirname path = [] \<or> isdir w (dirname path)))"

definition write_file :: "world \<Rightarrow> string \<Rightarrow> string \<Rightarrow> error + world" where
  "write_file w path content =
     (if \<not> writable w path
      then Inl IOError
      else Inr (w\<lparr>fs := (path, File content) # remove_path path (fs w)\<rparr>))"

subsection \<open>\<^verbatim>\<open>_build_inventory\<close>\<close>

text \<open>
  The result is the exception raised or the value returned (\<open>None\<close> or the path of the
  file), with the provider, whose \<^verbatim>\<open>_storage_path\<close> the method may set, and the world.
\<close>

definition build_inventory ::
  "provider \<Rightarrow> cluster \<Rightarrow> world \<Rightarrow> (error + string option) \<times> provider \<times> world" where
  "build_inventory p c w =
     (let inventory = inventory_of p c in
      if inventory \<noteq> [] then
        (case (if storage_path_tmp p \<and> storage_path p = []
               then (case mkdtemp w of
                       Inl ex \<Rightarrow> Inl ex
                     | Inr (d, w1) \<Rightarrow> Inr (p\<lparr>storage_path := d\<rparr>, w1))
               else Inr (p, w)) of
           Inl ex \<Rightarrow> (Inl ex, p, w)
         | Inr (p1, w1) \<Rightarrow>
             let inventory_path = path_join (storage_path p1) (fname c) in
             (case write_file w1 inventory_path
                     (write_sections [] (dict_items w1 inventory)) of
                Inl ex \<Rightarrow> (Inl ex, p1, w1)
              | Inr w2 \<Rightarrow> (Inr (Some inventory_path), p1, w2)))
      else (Inr None, p, w))"

subsection \<open>\<^verbatim>\<open>setup_cluster\<close>\<close>

text \<open>
  The environment of the child process: \<^verbatim>\<open>copy(os.environ)\<close> with five overrides. The
  overrides are kept in the copy only; what they do to \<^verbatim>\<open>os.environ\<close> itself is not
  followed.
\<close>

definition ansible_env :: "world \<Rightarrow> string \<Rightarrow> (string \<rightharpoonup> string)" where
  "ansible_env w private_key_file =
     (os_environ w)
       (''ANSIBLE_FORKS'' \<mapsto> ''10'',
        ''ANSIBLE_HOST_KEY_CHECKING'' \<mapsto> ''no'',
        ''ANSIBLE_PRIVATE_KEY_FILE'' \<mapsto> private_key_file,
        ''ANSIBLE_SSH_PIPELINING'' \<mapsto> ''yes'',
        ''ANSIBLE_TIMEOUT'' \<mapsto> ''120'')"

definition logging_WARNING :: int where
  "logging_WARNING = 30"

text \<open>\<^verbatim>\<open>min(3, (logging.WARNING - elasticluster.log.level) / 10)\<close>, on integers.\<close>

definition verbosity :: "world \<Rightarrow> int" where
  "verbosity w = min 3 ((logging_WARNING - log_level w) div 10)"

text \<open>The command line: the list \<^verbatim>\<open>cmd\<close> as it is when \<^verbatim>\<open>call\<close> is reached.\<close>

definition command_line :: "provider \<Rightarrow> world \<Rightarrow> string \<Rightarrow> string list" where
  "command_line p w inventory_path =
     (let cmd = [''ansible-playbook'', realpath w (playbook_path p), ''--inventory='' @ inventory_path];
          cmd = (if sudo p then cmd @ [''--sudo'', ''--sudo-user='' @ sudo_user p] else cmd);
          cmd = (if verbosity w > 0
                 then cmd @ [''-'' @ replicate (nat (verbosity w)) (CHR ''v'')]
                 else cmd)
      in cmd)"

text \<open>
  \<^verbatim>\<open>call(cmd, env=ansible_env, bufsize=1, close_fds=True)\<close>: when the program cannot be
  started, \<^verbatim>\<open>OSError\<close> is raised and there is no child process; otherwise the child
  process is recorded and the exit code of the tool is returned.
\<close>

definition call ::
  "world \<Rightarrow> string list \<Rightarrow> (string \<rightharpoonup> string) \<Rightarrow> (error + int) \<times> world" where
  "call w cmd env =
     (case ansible_playbook w cmd env of
        None \<Rightarrow> (Inl OSError, w)
      | Some rc \<Rightarrow> (Inr rc, w\<lparr>launched := launched w @ [(cmd, env)]\<rparr>))"

text \<open>
  The body of \<^verbatim>\<open>setup_cluster\<close> after the call of \<^verbatim>\<open>_build_inventory\<close>, as a function of
  the value that call returned.
\<close>

definition setup_with_inventory ::
  "provider \<Rightarrow> cluster \<Rightarrow> string option \<Rightarrow> world \<Rightarrow> (error + bool) \<times> world" where
  "setup_with_inventory p c inventory_path w =
     (let private_key_file = user_key_private c;
          env = ansible_env w private_key_file
      in
      if \<not> truthy inventory_path then (Inr True, w)
      else
        let ip = the inventory_path in
        if \<not> path_exists w ip then
          (Inl (AnsibleError (''inventory file `'' @ ip @ ''` could not be found'')), w)
        else if \<not> path_exists w (playbook_path p) then
          (Inl (AnsibleError (''playbook `'' @ playbook_path p @ ''` could not be found'')), w)
        else if \<not> isfile w (playbook_path p) then
          (Inl (AnsibleError (''playbook `'' @ playbook_path p @ ''` is not a file'')), w)
        else
          (case call w (command_line p w ip) env of
             (Inl ex, w') \<Rightarrow> (Inl ex, w')
           | (Inr rc, w') \<Rightarrow> if rc = 0 then (Inr True, w') else (Inr False, w')))"

definition setup_cluster ::
  "provider \<Rightarrow> cluster \<Rightarrow> world \<Rightarrow> (error + bool) \<times> provider \<times> world" where
  "setup_cluster p c w =
     (case build_inventory p c w of
        (Inl ex, p1, w1) \<Rightarrow> (Inl ex, p1, w1)
      | (Inr inventory_path, p1, w1) \<Rightarrow>
          (case setup_with_inventory p1 c inventory_path w1 of
             (r, w2) \<Rightarrow> (r, p1, w2)))"

subsection \<open>The layout of the inventory file, line by line\<close>

text \<open>
  The specification's description of the file, for comparison with what
  \<open>write_sections\<close> writes: for every group of the document one empty line, the header
  \<^verbatim>\<open>[group]\<close>, and one line per host; every line ends with a line feed.
\<close>

definition host_line_text :: "host \<Rightarrow> string" where
  "host_line_text h = (case h of (n, a, v) \<Rightarrow> n @ '' ansible_ssh_host='' @ a @ '' '' @ v)"

definition section_lines :: "string \<times> host list \<Rightarrow> string list" where
  "section_lines s = (case s of (g, hs) \<Rightarrow> [[], ''['' @ g @ '']''] @ map host_line_text hs)"

definition inventory_lines :: "inventory \<Rightarrow> string list" where
  "inventory_lines doc = concat (map section_lines doc)"

definition file_of_lines :: "string list \<Rightarrow> string" where
  "file_of_lines ls = concat (map (\<lambda>l. l @ [CHR 0x0A]) ls)"

text \<open>
  The groups configured for the kind of a node, and the host entries a group receives
  from a list of nodes: one for every occurrence of the group in the list of groups of
  the node's kind, in the order of the nodes.
\<close>

definition groups_of :: "provider \<Rightarrow> node \<Rightarrow> string list" where
  "groups_of p n = (case groups p (kind n) of None \<Rightarrow> [] | Some gs \<Rightarrow> gs)"

definition hosts_in_group :: "provider \<Rightarrow> node list \<Rightarrow> string \<Rightarrow> host list" where
  "hosts_in_group p ns g =
     concat (map (\<lambda>n. map (\<lambda>g'. host_entry p n) (filter (\<lambda>g'. g' = g) (groups_of p n))) ns)"

text \<open>
  The variable string of a node as the specification describes it: the login-user
  override, then \<^verbatim>\<open>key=value\<close> for every variable configured for the kind of the node,
  each after one blank.
\<close>

definition environment_items :: "provider \<Rightarrow> node \<Rightarrow> (string \<times> string) list" where
  "environment_items p n = (case environment p (kind n) of None \<Rightarrow> [] | Some kvs \<Rightarrow> kvs)"

definition variable_string :: "provider \<Rightarrow> node \<Rightarrow> string" where
  "variable_string p n =
     ''ansible_ssh_user='' @ image_user n @
     concat (map (\<lambda>(k, v). '' '' @ k @ ''='' @ v) (environment_items p n))"

text \<open>The hosts stored under a group: \<^verbatim>\<open>inventory.get(group, [])\<close>.\<close>

definition hosts_of :: "inventory \<Rightarrow> string \<Rightarrow> host list" where
  "hosts_of doc g = (case map_of doc g of None \<Rightarrow> [] | Some hs \<Rightarrow> hs)"

subsection \<open>Concrete inputs\<close>

text \<open>
  The example of the specification: one node of kind \<^verbatim>\<open>frontend\<close>, mapped to the group
  \<^verbatim>\<open>web\<close>, in the cluster \<^verbatim>\<open>a\<close>; an ephemeral storage directory \<^verbatim>\<open>/tmp/x\<close>; a tool that
  exits with code 2.
\<close>

definition exit_with :: "int \<Rightarrow> string list \<Rightarrow> (string \<rightharpoonup> string) \<Rightarrow> int option" where
  "exit_with rc cmd env = Some rc"

definition ex_node :: node where
  "ex_node = \<lparr>kind = ''frontend'', name = ''n1'', preferred_ip = ''10.0.0.1'',
              image_user = ''ubuntu''\<rparr>"

definition ex_cluster :: cluster where
  "ex_cluster = \<lparr>cluster_name = ''a'', get_all_nodes = [ex_node], user_key_private = ''/key''\<rparr>"

definition ex_provider :: provider where
  "ex_provider =
     \<lparr>groups = [''frontend'' \<mapsto> [''web'']], playbook_path = ''/pb/site.yml'',
      environment = Map.empty, storage_path = ''/tmp/x'', storage_path_tmp = True,
      sudo = True, sudo_user = ''root'', ansible_module_dir = [], ssh_pipelining = True\<rparr>"

definition ex_fs :: "(string \<times> entry) list" where
  "ex_fs = [(''/tmp/x'', Dir), (''/pb/site.yml'', File ''- hosts: all'')]"

definition ex_world :: world where
  "ex_world =
     \<lparr>fs = ex_fs, undeletable = [], os_environ = [''HOME'' \<mapsto> ''/home/u''],
      current_home = ''/home/u'', passwd = Map.empty, tmp_names = [''/tmp/tmpA''],
      sys_prefix = ''/usr'', log_level = 20, realpath = (\<lambda>p. p),
      ansible_playbook = exit_with 2, launched = [], dict_rank = (\<lambda>g. 0)\<rparr>"

definition ex_inventory_text :: string where
  "ex_inventory_text =
     [CHR 0x0A] @ ''[web]'' @ [CHR 0x0A] @
     ''n1 ansible_ssh_host=10.0.0.1 ansible_ssh_user=ubuntu'' @ [CHR 0x0A]"

definition ex_world_written :: world where
  "ex_world_written =
     ex_world\<lparr>fs := (''/tmp/x/ansible-inventory.a'', File ex_inventory_text) # ex_fs\<rparr>"

text \<open>
  A second cluster \<^verbatim>\<open>b\<close>; a storage directory that holds the inventories of both
  clusters; a world in which the removal of the inventory of \<^verbatim>\<open>a\<close> is refused.
\<close>

definition ex_cluster_b :: cluster where
  "ex_cluster_b = ex_cluster\<lparr>cluster_name := ''b''\<rparr>"

definition ex_world_shared :: world where
  "ex_world_shared =
     ex_world\<lparr>fs := [(''/tmp/x'', Dir), (''/tmp/x/ansible-inventory.a'', File ''A''),
                      (''/tmp/x/ansible-inventory.b'', File ''B'')]\<rparr>"

definition ex_world_refused :: world where
  "ex_world_refused = ex_world_written\<lparr>undeletable := [''/tmp/x/ansible-inventory.a'']\<rparr>"

section \<open>Properties\<close>

subsection \<open>Clusters without a configured node kind\<close>

lemma collect_nodes_unmapped:
  "\<forall>n \<in> set ns. groups p (kind n) = None \<Longrightarrow> collect_nodes p doc ns = doc"
  by (induction ns arbitrary: doc) auto

text \<open>
  C1. When no node of the cluster has a kind that is a key of \<^verbatim>\<open>groups\<close>,
  \<^verbatim>\<open>_build_inventory\<close> returns \<^verbatim>\<open>None\<close> and \<^verbatim>\<open>setup_cluster\<close> returns \<^verbatim>\<open>True\<close>; the
  provider and the world are left as they were, so no file is written and no child
  process is launched.
\<close>

theorem no_configured_kind_no_setup:
  assumes "\<forall>n \<in> set (get_all_nodes c). groups p (kind n) = None"
  shows "build_inventory p c w = (Inr None, p, w)
       \<and> setup_cluster p c w = (Inr True, p, w)
       \<and> launched (snd (snd (setup_cluster p c w))) = launched w"
proof -
  have doc: "inventory_of p c = []"
    using assms by (simp add: inventory_of_def collect_nodes_unmapped)
  have b: "build_inventory p c w = (Inr None, p, w)"
    by (simp add: build_inventory_def doc)
  have s: "setup_cluster p c w = (Inr True, p, w)"
    by (simp add: setup_cluster_def b setup_with_inventory_def truthy_def)
  from b s show ?thesis by simp
qed

theorem no_configured_kind_no_setup_witness:
  "get_all_nodes ex_cluster = [ex_node]
   \<and> groups (ex_provider\<lparr>groups := [''worker'' \<mapsto> [''web'']]\<rparr>) (kind ex_node) = None
   \<and> build_inventory (ex_provider\<lparr>groups := [''worker'' \<mapsto> [''web'']]\<rparr>) ex_cluster ex_world
       = (Inr None, ex_provider\<lparr>groups := [''worker'' \<mapsto> [''web'']]\<rparr>, ex_world)
   \<and> fst (setup_cluster (ex_provider\<lparr>groups := [''worker'' \<mapsto> [''web'']]\<rparr>) ex_cluster ex_world) = Inr True"
proof -
  have h: "\<forall>n \<in> set (get_all_nodes ex_cluster).
             groups (ex_provider\<lparr>groups := [''worker'' \<mapsto> [''web'']]\<rparr>) (kind n) = None"
    by (simp add: ex_cluster_def ex_node_def)
  from no_configured_kind_no_setup [OF h, of ex_world] h show ?thesis
    by (simp add: ex_cluster_def)
qed

subsection \<open>The example, evaluated\<close>

lemma ex_inventory: "inventory_of ex_provider ex_cluster =
    [(''web'', [(''n1'', ''10.0.0.1'', ''ansible_ssh_user=ubuntu'')])]"
  by (simp add: inventory_of_def ex_provider_def ex_cluster_def ex_node_def host_entry_def
      extra_vars_def)

lemma ex_build_inventory:
  "build_inventory ex_provider ex_cluster ex_world =
     (Inr (Some ''/tmp/x/ansible-inventory.a''), ex_provider, ex_world_written)"
  by (simp add: build_inventory_def ex_inventory)
    (simp add: ex_provider_def ex_cluster_def ex_world_def ex_world_written_def ex_fs_def
      ex_inventory_text_def fname_def inventory_file_ending_def path_join_def write_file_def
      isdir_def lookup_def dirname_def rstrip_slash_def remove_path_def hostline_def Let_def
      writable_def dict_items_def)

lemma ex_setup_cluster:
  "setup_cluster ex_provider ex_cluster ex_world =
     (Inr False, ex_provider,
      ex_world_written\<lparr>launched :=
        [(command_line ex_provider ex_world_written ''/tmp/x/ansible-inventory.a'',
          ansible_env ex_world_written ''/key'')]\<rparr>)"
  by (simp add: setup_cluster_def ex_build_inventory setup_with_inventory_def truthy_def
      call_def Let_def)
    (simp add: ex_world_written_def ex_world_def ex_fs_def ex_provider_def ex_cluster_def
      path_exists_def isfile_def lookup_def exit_with_def)

lemma ex_inventory_any_playbook:
  "inventory_of (ex_provider\<lparr>playbook_path := pb\<rparr>) ex_cluster =
    [(''web'', [(''n1'', ''10.0.0.1'', ''ansible_ssh_user=ubuntu'')])]"
  by (simp add: inventory_of_def ex_provider_def ex_cluster_def ex_node_def host_entry_def
      extra_vars_def)

lemma ex_build_inventory_any:
  "build_inventory (ex_provider\<lparr>playbook_path := pb\<rparr>) ex_cluster
     (ex_world\<lparr>ansible_playbook := t\<rparr>) =
     (Inr (Some ''/tmp/x/ansible-inventory.a''), ex_provider\<lparr>playbook_path := pb\<rparr>,
      ex_world_written\<lparr>ansible_playbook := t\<rparr>)"
  by (simp add: build_inventory_def ex_inventory_any_playbook)
    (simp add: ex_provider_def ex_cluster_def ex_world_def ex_world_written_def ex_fs_def
      ex_inventory_text_def fname_def inventory_file_ending_def path_join_def write_file_def
      isdir_def lookup_def dirname_def rstrip_slash_def remove_path_def hostline_def Let_def
      writable_def dict_items_def)

lemma ex_no_missing_playbook:
  "\<not> path_exists (ex_world_written\<lparr>ansible_playbook := t\<rparr>) ''/pb/missing.yml''"
  by (simp add: path_exists_def lookup_def ex_world_written_def ex_fs_def)

lemma ex_inventory_written:
  "path_exists (ex_world_written\<lparr>ansible_playbook := t\<rparr>) ''/tmp/x/ansible-inventory.a''"
  by (simp add: path_exists_def lookup_def ex_world_written_def ex_fs_def)

lemma ex_empty_group_list:
  "setup_cluster (ex_provider\<lparr>groups := [''frontend'' \<mapsto> []]\<rparr>) ex_cluster ex_world
       = (Inr True, ex_provider\<lparr>groups := [''frontend'' \<mapsto> []]\<rparr>, ex_world)"
proof -
  have "inventory_of (ex_provider\<lparr>groups := [''frontend'' \<mapsto> []]\<rparr>) ex_cluster = []"
    by (simp add: inventory_of_def ex_cluster_def ex_node_def)
  then have "build_inventory (ex_provider\<lparr>groups := [''frontend'' \<mapsto> []]\<rparr>) ex_cluster ex_world
      = (Inr None, ex_provider\<lparr>groups := [''frontend'' \<mapsto> []]\<rparr>, ex_world)"
    by (simp add: build_inventory_def)
  then show ?thesis
    by (simp add: setup_cluster_def setup_with_inventory_def truthy_def)
qed

lemma ex_missing_playbook:
  "fst (setup_cluster (ex_provider\<lparr>playbook_path := ''/pb/missing.yml''\<rparr>) ex_cluster
            (ex_world\<lparr>ansible_playbook := exit_with 0\<rparr>))
       = Inl (AnsibleError ''playbook `/pb/missing.yml` could not be found'')"
  by (simp add: setup_cluster_def ex_build_inventory_any setup_with_inventory_def truthy_def
      ex_no_missing_playbook ex_inventory_written)

lemma ex_missing_storage:
  "fst (setup_cluster ex_provider ex_cluster
          (ex_world\<lparr>ansible_playbook := t, fs := [(''/pb/site.yml'', File [])]\<rparr>))
     = Inl IOError"
  by (simp add: setup_cluster_def build_inventory_def ex_inventory)
    (simp add: ex_provider_def ex_cluster_def ex_world_def fname_def inventory_file_ending_def
      path_join_def write_file_def writable_def isdir_def lookup_def dirname_def
      rstrip_slash_def Let_def)

lemma ex_unconfigured:
  "setup_cluster (ex_provider\<lparr>groups := [''worker'' \<mapsto> [''web'']], playbook_path := pb\<rparr>)
     ex_cluster ex_world
   = (Inr True, ex_provider\<lparr>groups := [''worker'' \<mapsto> [''web'']], playbook_path := pb\<rparr>, ex_world)"
proof -
  have "\<forall>n \<in> set (get_all_nodes ex_cluster).
      groups (ex_provider\<lparr>groups := [''worker'' \<mapsto> [''web'']], playbook_path := pb\<rparr>) (kind n) = None"
    by (simp add: ex_cluster_def ex_node_def)
  then have "inventory_of (ex_provider\<lparr>groups := [''worker'' \<mapsto> [''web'']], playbook_path := pb\<rparr>)
      ex_cluster = []"
    by (simp add: inventory_of_def collect_nodes_unmapped)
  then show ?thesis
    by (simp add: setup_cluster_def build_inventory_def setup_with_inventory_def truthy_def)
qed

lemmas ex_cleanup_defs =
  cleanup_def unlink_def isfile_def path_exists_def lookup_def listdir_def isdir_def
  children_def child_name_def dir_prefix_def rmtree_def below_def remove_path_def
  except_OSError_def path_join_def fname_def inventory_file_ending_def inventory_path_of_def
  Let_def

lemma ex_listdir_shared:
  "listdir ex_world_shared ''/tmp/x'' = Inr [''ansible-inventory.a'', ''ansible-inventory.b'']"
  by (simp add: ex_world_shared_def ex_world_def ex_cleanup_defs)

lemma ex_cleanup_last:
  "cleanup ex_provider ex_cluster ex_world_written =
     Inr (ex_world\<lparr>fs := [(''/pb/site.yml'', File ''- hosts: all'')]\<rparr>)"
  by (simp add: ex_world_written_def ex_world_def ex_fs_def ex_provider_def ex_cluster_def
      ex_cleanup_defs)

lemma ex_cleanup_refused:
  "cleanup ex_provider ex_cluster ex_world_refused = Inr ex_world_refused"
  by (simp add: ex_world_refused_def ex_world_written_def ex_world_def ex_fs_def ex_provider_def
      ex_cluster_def ex_cleanup_defs)

lemma ex_refused_exists:
  "path_exists ex_world_refused (inventory_path_of ex_provider ex_cluster)"
  "isfile ex_world_refused (inventory_path_of ex_provider ex_cluster)"
  "unlink ex_world_refused (inventory_path_of ex_provider ex_cluster) = Inl OSError"
  "path_exists ex_world_refused (storage_path ex_provider)"
  "storage_path ex_provider \<noteq> []"
  by (simp_all add: ex_world_refused_def ex_world_written_def ex_world_def ex_fs_def ex_provider_def
      ex_cluster_def ex_cleanup_defs)

subsection \<open>The verbosity flag\<close>

lemma verbosity_le_3: "verbosity w \<le> 3"
  by (simp add: verbosity_def)

lemma verbosity_pos_iff: "0 < verbosity w \<longleftrightarrow> log_level w \<le> 20"
  by (auto simp: verbosity_def logging_WARNING_def min_def)

text \<open>
  C9. The verbosity is computed from the log level of the caller and is at most 3. It is
  positive exactly when the level is at most \<^verbatim>\<open>logging.WARNING - 10\<close>; the command line
  is the playbook, the inventory option and the sudo options, followed by the flag
  \<^verbatim>\<open>-v\<close>, \<^verbatim>\<open>-vv\<close> or \<^verbatim>\<open>-vvv\<close> when the verbosity is positive and by nothing otherwise.
  At the level \<^verbatim>\<open>logging.WARNING\<close> and above no flag is appended.
\<close>

theorem verbosity_flag:
  "verbosity w \<le> 3
   \<and> (0 < verbosity w \<longleftrightarrow> log_level w \<le> logging_WARNING - 10)
   \<and> command_line p w ip =
       ([''ansible-playbook'', realpath w (playbook_path p), ''--inventory='' @ ip]
        @ (if sudo p then [''--sudo'', ''--sudo-user='' @ sudo_user p] else []))
       @ (if 0 < verbosity w then [''-'' @ replicate (nat (verbosity w)) (CHR ''v'')] else [])
   \<and> (logging_WARNING \<le> log_level w \<longrightarrow>
        command_line p w ip =
          [''ansible-playbook'', realpath w (playbook_path p), ''--inventory='' @ ip]
          @ (if sudo p then [''--sudo'', ''--sudo-user='' @ sudo_user p] else []))"
  using verbosity_pos_iff [of w]
  by (simp add: verbosity_le_3 command_line_def Let_def logging_WARNING_def)

theorem verbosity_flag_witness:
  "logging_WARNING \<le> log_level (ex_world\<lparr>log_level := 40\<rparr>)
   \<and> command_line ex_provider (ex_world\<lparr>log_level := 40\<rparr>) ''/tmp/x/ansible-inventory.a''
       = [''ansible-playbook'', ''/pb/site.yml'', ''--inventory=/tmp/x/ansible-inventory.a'',
          ''--sudo'', ''--sudo-user=root'']
   \<and> command_line ex_provider (ex_world\<lparr>log_level := 10\<rparr>) ''/tmp/x/ansible-inventory.a''
       = [''ansible-playbook'', ''/pb/site.yml'', ''--inventory=/tmp/x/ansible-inventory.a'',
          ''--sudo'', ''--sudo-user=root'', ''-vv'']"
  using verbosity_flag [of "ex_world\<lparr>log_level := 40\<rparr>" ex_provider "''/tmp/x/ansible-inventory.a''"]
    verbosity_flag [of "ex_world\<lparr>log_level := 10\<rparr>" ex_provider "''/tmp/x/ansible-inventory.a''"]
  by (simp add: ex_world_def ex_provider_def logging_WARNING_def verbosity_def eval_nat_numeral)


subsection \<open>SSH pipelining\<close>

lemma host_entry_pipelining: "host_entry (p\<lparr>ssh_pipelining := b\<rparr>) n = host_entry p n"
  by (simp add: host_entry_def extra_vars_def)

lemma collect_nodes_pipelining:
  "collect_nodes (p\<lparr>ssh_pipelining := b\<rparr>) doc ns = collect_nodes p doc ns"
  by (induction ns arbitrary: doc) (simp_all add: host_entry_pipelining cong: option.case_cong)

lemma build_inventory_pipelining:
  "build_inventory (p\<lparr>ssh_pipelining := b\<rparr>) c w =
     (case build_inventory p c w of (r, p1, w1) \<Rightarrow> (r, p1\<lparr>ssh_pipelining := b\<rparr>, w1))"
  by (simp add: build_inventory_def inventory_of_def collect_nodes_pipelining Let_def
      split: sum.splits prod.splits)

lemma setup_with_inventory_pipelining:
  "setup_with_inventory (p\<lparr>ssh_pipelining := b\<rparr>) c ip w = setup_with_inventory p c ip w"
  by (simp add: setup_with_inventory_def command_line_def Let_def)

lemma setup_cluster_pipelining:
  "setup_cluster (p\<lparr>ssh_pipelining := b\<rparr>) c w =
     (case setup_cluster p c w of (r, p1, w1) \<Rightarrow> (r, p1\<lparr>ssh_pipelining := b\<rparr>, w1))"
  by (simp add: setup_cluster_def build_inventory_pipelining setup_with_inventory_pipelining
      split: sum.splits prod.splits)

lemma launched_write_file: "write_file w path content = Inr w' \<Longrightarrow> launched w' = launched w"
  by (auto simp: write_file_def split: if_splits)

lemma launched_mkdtemp: "mkdtemp w = Inr (d, w') \<Longrightarrow> launched w' = launched w"
  by (auto simp: mkdtemp_def split: list.splits)

lemma launched_build_inventory:
  "build_inventory p c w = (r, p1, w1) \<Longrightarrow> launched w1 = launched w"
  by (fastforce simp: build_inventory_def Let_def split: if_splits sum.splits prod.splits
      dest: launched_write_file launched_mkdtemp)

lemma launched_setup_with_inventory:
  "setup_with_inventory p c ip w = (r, w') \<Longrightarrow>
     launched w' = launched w \<or>
     (\<exists>cmd. launched w' = launched w @ [(cmd, ansible_env w (user_key_private c))])"
  by (auto simp: setup_with_inventory_def Let_def call_def split: if_splits option.splits)

lemma launched_setup_cluster:
  assumes "setup_cluster p c w = (r, p', w')"
  shows "\<forall>e \<in> set (drop (length (launched w)) (launched w')).
           snd e ''ANSIBLE_SSH_PIPELINING'' = Some ''yes''"
proof -
  obtain b p1 w1 where b: "build_inventory p c w = (b, p1, w1)"
    by (cases "build_inventory p c w") auto
  show ?thesis
  proof (cases b)
    case (Inl ex)
    with assms b have "w' = w1" by (simp add: setup_cluster_def)
    with launched_build_inventory [OF b] show ?thesis by simp
  next
    case (Inr ip)
    obtain r2 w2 where s: "setup_with_inventory p1 c ip w1 = (r2, w2)"
      by (cases "setup_with_inventory p1 c ip w1") auto
    with assms b Inr have "w' = w2" by (simp add: setup_cluster_def)
    with launched_setup_with_inventory [OF s] launched_build_inventory [OF b]
    show ?thesis by (auto simp: ansible_env_def)
  qed
qed

text \<open>
  C10. The environment of the child process sets \<^verbatim>\<open>ANSIBLE_SSH_PIPELINING\<close> to \<^verbatim>\<open>yes\<close>.
  Changing the attribute \<^verbatim>\<open>ssh_pipelining\<close> of the provider changes nothing in what
  \<^verbatim>\<open>setup_cluster\<close> returns or does, apart from the attribute itself; every child
  process launched by a call of \<^verbatim>\<open>setup_cluster\<close> has the variable set to \<^verbatim>\<open>yes\<close>.
\<close>

theorem pipelining_always_enabled:
  "ansible_env w key ''ANSIBLE_SSH_PIPELINING'' = Some ''yes''
   \<and> setup_cluster (p\<lparr>ssh_pipelining := b\<rparr>) c w =
       (case setup_cluster p c w of (r, p1, w1) \<Rightarrow> (r, p1\<lparr>ssh_pipelining := b\<rparr>, w1))
   \<and> (\<forall>e \<in> set (drop (length (launched w)) (launched (snd (snd (setup_cluster p c w))))).
         snd e ''ANSIBLE_SSH_PIPELINING'' = Some ''yes'')"
proof -
  have 1: "ansible_env w key ''ANSIBLE_SSH_PIPELINING'' = Some ''yes''"
    by (simp add: ansible_env_def)
  obtain r p' w' where s: "setup_cluster p c w = (r, p', w')"
    by (cases "setup_cluster p c w") auto
  from launched_setup_cluster [OF s] 1 show ?thesis
    by (simp add: s setup_cluster_pipelining)
qed


theorem pipelining_always_enabled_witness:
  "launched ex_world = []
   \<and> length (launched (snd (snd (setup_cluster ex_provider ex_cluster ex_world)))) = 1
   \<and> snd (hd (launched (snd (snd (setup_cluster ex_provider ex_cluster ex_world)))))
        ''ANSIBLE_SSH_PIPELINING'' = Some ''yes''"
  using pipelining_always_enabled
      [where w = ex_world and p = ex_provider and c = ex_cluster and b = True and key = "''/key''"]
  by (simp add: ex_setup_cluster) (simp add: ex_world_def)


subsection \<open>The inventory document\<close>

lemma write_hosts_eq: "write_hosts buf hs = buf @ concat (map hostline hs)"
  by (induction hs arbitrary: buf) auto

lemma hostline_text: "hostline h = host_line_text h @ [CHR 0x0A]"
  by (cases h) (simp add: hostline_def host_line_text_def)

lemma write_sections_eq: "write_sections buf doc = buf @ file_of_lines (inventory_lines doc)"
proof (induction doc arbitrary: buf)
  case Nil
  show ?case by (simp add: inventory_lines_def file_of_lines_def)
next
  case (Cons s doc)
  obtain g hs where s: "s = (g, hs)" by (cases s)
  have "concat (map hostline hs) = file_of_lines (map host_line_text hs)"
    by (induction hs) (simp_all add: file_of_lines_def hostline_text)
  then show ?case
    using Cons [of "write_hosts (buf @ [CHR 0x0A] @ ''['' @ g @ '']'' @ [CHR 0x0A]) hs"]
    by (simp add: s write_hosts_eq inventory_lines_def section_lines_def file_of_lines_def)
qed

lemma keys_inventory_append: "fst ` set (inventory_append doc g h) = insert g (fst ` set doc)"
  by (induction doc g h rule: inventory_append.induct) auto

lemma distinct_inventory_append:
  "distinct (map fst doc) \<Longrightarrow> distinct (map fst (inventory_append doc g h))"
proof (induction doc)
  case Nil
  show ?case by simp
next
  case (Cons s doc)
  obtain g' hs where s: "s = (g', hs)" by (cases s)
  from Cons show ?case
    using keys_inventory_append [of doc g h] by (auto simp: s)
qed

lemma hosts_inventory_append:
  "hosts_of (inventory_append doc g h) g' = hosts_of doc g' @ (if g' = g then [h] else [])"
  by (induction doc g h rule: inventory_append.induct) (auto simp: hosts_of_def)

lemma keys_add_to_groups: "fst ` set (add_to_groups doc gs h) = fst ` set doc \<union> set gs"
  by (induction gs arbitrary: doc) (auto simp: keys_inventory_append)

lemma distinct_add_to_groups:
  "distinct (map fst doc) \<Longrightarrow> distinct (map fst (add_to_groups doc gs h))"
  by (induction gs arbitrary: doc) (auto simp: distinct_inventory_append)

lemma hosts_add_to_groups:
  "hosts_of (add_to_groups doc gs h) g =
     hosts_of doc g @ map (\<lambda>g'. h) (filter (\<lambda>g'. g' = g) gs)"
  by (induction gs arbitrary: doc) (auto simp: hosts_inventory_append)

lemma collect_nodes_step:
  "collect_nodes p doc (n # ns) = collect_nodes p (add_to_groups doc (groups_of p n) (host_entry p n)) ns"
  by (simp add: groups_of_def split: option.splits)

lemma keys_collect_nodes:
  "fst ` set (collect_nodes p doc ns) = fst ` set doc \<union> (\<Union>n \<in> set ns. set (groups_of p n))"
proof (induction ns arbitrary: doc)
  case Nil
  show ?case by simp
next
  case (Cons n ns)
  show ?case
    unfolding collect_nodes_step Cons keys_add_to_groups by auto
qed

lemma distinct_collect_nodes:
  "distinct (map fst doc) \<Longrightarrow> distinct (map fst (collect_nodes p doc ns))"
proof (induction ns arbitrary: doc)
  case Nil
  then show ?case by simp
next
  case (Cons n ns)
  then show ?case
    unfolding collect_nodes_step by (simp add: distinct_add_to_groups)
qed

lemma hosts_collect_nodes:
  "hosts_of (collect_nodes p doc ns) g = hosts_of doc g @ hosts_in_group p ns g"
proof (induction ns arbitrary: doc)
  case Nil
  show ?case by (simp add: hosts_in_group_def)
next
  case (Cons n ns)
  show ?case
    unfolding collect_nodes_step Cons hosts_add_to_groups
    by (simp add: hosts_in_group_def)
qed

lemma inventory_sections:
  "distinct (map fst (inventory_of p c))"
  "set (map fst (inventory_of p c)) = (\<Union>n \<in> set (get_all_nodes c). set (groups_of p n))"
  "(g, hs) \<in> set (inventory_of p c) \<Longrightarrow> hs = hosts_in_group p (get_all_nodes c) g"
proof -
  show d: "distinct (map fst (inventory_of p c))"
    by (simp add: inventory_of_def distinct_collect_nodes)
  show "set (map fst (inventory_of p c)) = (\<Union>n \<in> set (get_all_nodes c). set (groups_of p n))"
    using keys_collect_nodes [of p "[]" "get_all_nodes c"] by (simp add: inventory_of_def)
  assume "(g, hs) \<in> set (inventory_of p c)"
  with d have "map_of (inventory_of p c) g = Some hs" by simp
  then have "hosts_of (inventory_of p c) g = hs" by (simp add: hosts_of_def)
  moreover have "hosts_of [] g = []" by (simp add: hosts_of_def)
  ultimately show "hs = hosts_in_group p (get_all_nodes c) g"
    by (simp add: inventory_of_def hosts_collect_nodes)
qed

lemma str_join_blank:
  "str_join '' '' (x # xs) = x @ concat (map (\<lambda>y. '' '' @ y) xs)"
  by (induction xs arbitrary: x) auto

lemma host_entry_fields:
  "host_entry p n = (name n, preferred_ip n, variable_string p n)"
proof -
  have "concat (map (\<lambda>y. '' '' @ y) (map (\<lambda>(k, v). k @ ''='' @ v) kvs))
      = concat (map (\<lambda>(k, v). '' '' @ k @ ''='' @ v) kvs)" for kvs :: "(string \<times> string) list"
    by (induction kvs) auto
  then show ?thesis
    by (simp add: host_entry_def extra_vars_def variable_string_def environment_items_def
        str_join_blank split: option.splits)
qed

lemma inventory_nonempty_iff:
  "inventory_of p c \<noteq> [] \<longleftrightarrow> (\<exists>n \<in> set (get_all_nodes c). groups_of p n \<noteq> [])"
proof -
  have "inventory_of p c \<noteq> [] \<longleftrightarrow> set (map fst (inventory_of p c)) \<noteq> {}" by simp
  also have "\<dots> \<longleftrightarrow> (\<exists>n \<in> set (get_all_nodes c). groups_of p n \<noteq> [])"
    unfolding inventory_sections(2) by auto
  finally show ?thesis .
qed


lemma node_with_group:
  assumes "n \<in> set (get_all_nodes c)" "groups p (kind n) = Some gs" "gs \<noteq> []"
  shows "inventory_of p c \<noteq> []"
proof -
  from assms(2,3) have "groups_of p n \<noteq> []" by (simp add: groups_of_def)
  with assms(1) show ?thesis unfolding inventory_nonempty_iff by blast
qed

lemma mset_dict_items: "mset (dict_items w doc) = mset doc"
  by (simp add: dict_items_def)

text \<open>
  Any order of the entries of a document is the order in which \<open>dict_items\<close> reads them
  for a suitable rank.
\<close>

lemma key_index_upt: "distinct ks \<Longrightarrow> map (key_index ks) ks = [0..<length ks]"
proof (induction ks)
  case Nil
  show ?case by simp
next
  case (Cons a ks)
  have "map (key_index (a # ks)) ks = map (Suc \<circ> key_index ks) ks"
    using Cons.prems by (auto simp: key_index_def)
  then have "map (key_index (a # ks)) (a # ks) = 0 # map Suc (map (key_index ks) ks)"
    by (simp add: key_index_def)
  also have "\<dots> = 0 # map Suc [0..<length ks]"
    using Cons by simp
  also have "\<dots> = 0 # [Suc 0..<Suc (length ks)]"
    by (simp only: map_Suc_upt)
  also have "\<dots> = [0..<length (a # ks)]"
    by (metis length_Cons upt_conv_Cons zero_less_Suc)
  finally show ?case .
qed

lemma dict_items_any_order:
  assumes d: "distinct (map fst doc)" and m: "mset xs = mset doc"
  shows "dict_items (w\<lparr>dict_rank := key_index (map fst xs)\<rparr>) doc = xs"
proof -
  let ?f = "\<lambda>s :: string \<times> host list. key_index (map fst xs) (fst s)"
  from m have "mset (map fst xs) = mset (map fst doc)" by (metis mset_map)
  with d have dx: "distinct (map fst xs)" by (metis mset_eq_imp_distinct_iff)
  have fx: "map ?f xs = [0..<length xs]"
    using key_index_upt [OF dx] by (simp add: comp_def)
  then have dfx: "distinct (map ?f xs)" and sfx: "sorted (map ?f xs)" by simp_all
  from m have s: "set xs = set doc" by (rule mset_eq_setD)
  from dfx have inj: "inj_on ?f (set xs)" and dxs: "distinct xs"
    by (simp_all add: distinct_map)
  from dxs m have dd: "distinct doc" by (metis mset_eq_imp_distinct_iff)
  have 1: "sorted (map ?f (sort_key ?f doc))" by (rule sorted_sort_key)
  have 2: "distinct (map ?f (sort_key ?f doc))"
    using inj dd s by (simp add: distinct_map)
  have 3: "set (map ?f (sort_key ?f doc)) = set (map ?f xs)"
    using s by simp
  have "map ?f (sort_key ?f doc) = map ?f xs"
    by (rule sorted_distinct_set_unique [OF 1 2 sfx dfx 3])
  moreover have "inj_on ?f (set (sort_key ?f doc) \<union> set xs)"
    using inj s by simp
  ultimately have "sort_key ?f doc = xs"
    by (simp add: inj_on_map_eq_map)
  then show ?thesis by (simp add: dict_items_def)
qed

subsection \<open>What \<^verbatim>\<open>_build_inventory\<close> does to the file system\<close>

text \<open>
  With a document that is not empty, \<^verbatim>\<open>_build_inventory\<close> writes the file under the
  storage path, for ephemeral and for given storage alike; it raises the \<^verbatim>\<open>IOError\<close> of
  \<^verbatim>\<open>open\<close> when the file cannot be opened; and it first creates a temporary directory
  when the storage is ephemeral and its path is empty.
\<close>

lemma map_of_remove_path:
  "map_of (remove_path p xs) q = (if q = p then None else map_of xs q)"
  by (induction xs) (auto simp: remove_path_def)

lemma build_inventory_writes:
  assumes "inventory_of p c \<noteq> []" "storage_path p \<noteq> []" "writable w (inventory_path_of p c)"
  shows "build_inventory p c w =
     (Inr (Some (inventory_path_of p c)), p,
      w\<lparr>fs := (inventory_path_of p c,
                File (write_sections [] (dict_items w (inventory_of p c))))
               # remove_path (inventory_path_of p c) (fs w)\<rparr>)"
  using assms
  by (simp add: build_inventory_def write_file_def inventory_path_of_def Let_def
      dict_items_def)

lemma build_inventory_unwritable:
  assumes "inventory_of p c \<noteq> []" "storage_path p \<noteq> []" "\<not> writable w (inventory_path_of p c)"
  shows "build_inventory p c w = (Inl IOError, p, w)"
  using assms
  by (simp add: build_inventory_def write_file_def inventory_path_of_def Let_def)

lemma build_inventory_lazy_tmp:
  assumes "inventory_of p c \<noteq> []" "storage_path_tmp p" "storage_path p = []"
    and "mkdtemp w = Inr (d, w1)" and "writable w1 (path_join d (fname c))"
  shows "build_inventory p c w =
     (Inr (Some (path_join d (fname c))), p\<lparr>storage_path := d\<rparr>,
      w1\<lparr>fs := (path_join d (fname c),
                 File (write_sections [] (dict_items w1 (inventory_of p c))))
                # remove_path (path_join d (fname c)) (fs w1)\<rparr>)"
  using assms
  by (simp add: build_inventory_def write_file_def Let_def)

lemma isfile_after_write:
  assumes "isfile w q"
  shows "isfile (w\<lparr>fs := (ip, File x) # remove_path ip (fs w)\<rparr>) q"
  using assms
  by (auto simp: isfile_def lookup_def map_of_remove_path split: if_splits option.splits
      entry.splits)

subsection \<open>The result of \<^verbatim>\<open>setup_cluster\<close>\<close>

lemma isfile_exists: "isfile w p \<Longrightarrow> path_exists w p"
  by (auto simp: isfile_def path_exists_def split: option.splits)

lemma write_file_path:
  "write_file w path content = Inr w' \<Longrightarrow> path \<noteq> [] \<and> lookup w' path = Some (File content)"
  by (auto simp: write_file_def writable_def lookup_def split: if_splits)

lemma build_inventory_Some:
  assumes "build_inventory p c w = (Inr (Some ip), p1, w1)"
  shows "ip \<noteq> []" and "ip = inventory_path_of p1 c"
    and "path_exists w1 ip"
    and "inventory_of p c \<noteq> []"
  using assms
  by (auto simp: build_inventory_def Let_def inventory_path_of_def path_exists_def
      split: if_splits sum.splits prod.splits dest: write_file_path)

lemma setup_with_inventory_raises:
  assumes "ip \<noteq> []"
    and "\<not> path_exists w ip \<or> \<not> path_exists w (playbook_path p) \<or> \<not> isfile w (playbook_path p)"
  shows "\<exists>msg. setup_with_inventory p c (Some ip) w = (Inl (AnsibleError msg), w)"
  using assms by (auto simp: setup_with_inventory_def Let_def truthy_def)

lemma setup_with_inventory_runs:
  assumes "ip \<noteq> []" "path_exists w ip" "isfile w (playbook_path p)"
    and "ansible_playbook w (command_line p w ip) (ansible_env w (user_key_private c)) = Some rc"
  shows "setup_with_inventory p c (Some ip) w =
     (Inr (rc = 0),
      w\<lparr>launched := launched w @ [(command_line p w ip, ansible_env w (user_key_private c))]\<rparr>)"
  using assms isfile_exists [OF assms(3)]
  by (simp add: setup_with_inventory_def Let_def truthy_def call_def)

lemma setup_with_inventory_not_started:
  assumes "ip \<noteq> []" "path_exists w ip" "isfile w (playbook_path p)"
    and "ansible_playbook w (command_line p w ip) (ansible_env w (user_key_private c)) = None"
  shows "setup_with_inventory p c (Some ip) w = (Inl OSError, w)"
  using assms isfile_exists [OF assms(3)]
  by (simp add: setup_with_inventory_def Let_def truthy_def call_def)

lemma verbosity_after_write: "verbosity (w\<lparr>fs := x\<rparr>) = verbosity w"
  by (simp add: verbosity_def)

lemma command_line_after_write:
  "command_line p (w\<lparr>fs := x\<rparr>) ip = command_line p w ip"
  by (simp add: command_line_def verbosity_after_write Let_def)

lemma ansible_env_after_write: "ansible_env (w\<lparr>fs := x\<rparr>) k = ansible_env w k"
  by (simp add: ansible_env_def)

lemma written_exists:
  "ip \<noteq> [] \<Longrightarrow> path_exists (w\<lparr>fs := (ip, e) # xs\<rparr>) ip"
  by (simp add: path_exists_def lookup_def)

lemma writable_nonempty: "writable w path \<Longrightarrow> path \<noteq> []"
  by (simp add: writable_def)

text \<open>
  When the program \<^verbatim>\<open>ansible-playbook\<close> cannot be started, the \<^verbatim>\<open>OSError\<close> of
  \<^verbatim>\<open>subprocess.call\<close> leaves \<^verbatim>\<open>setup_cluster\<close>; the inventory file has been written and
  no child process is recorded.
\<close>

lemma setup_cluster_not_started:
  assumes "n \<in> set (get_all_nodes c)" and "groups p (kind n) = Some gs" and "gs \<noteq> []"
    and "storage_path p \<noteq> []" and "writable w (inventory_path_of p c)"
    and "isfile w (playbook_path p)"
    and "ansible_playbook w (command_line p w (inventory_path_of p c))
           (ansible_env w (user_key_private c)) = None"
  shows "setup_cluster p c w =
     (Inl OSError, p,
      w\<lparr>fs := (inventory_path_of p c,
                File (write_sections [] (dict_items w (inventory_of p c))))
               # remove_path (inventory_path_of p c) (fs w)\<rparr>)"
proof -
  let ?ip = "inventory_path_of p c"
  let ?w1 = "w\<lparr>fs := (?ip, File (write_sections [] (dict_items w (inventory_of p c))))
                       # remove_path ?ip (fs w)\<rparr>"
  have b: "build_inventory p c w = (Inr (Some ?ip), p, ?w1)"
    by (rule build_inventory_writes [OF node_with_group [OF assms(1-3)] assms(4,5)])
  have ip: "?ip \<noteq> []" by (rule writable_nonempty [OF assms(5)])
  have t: "ansible_playbook ?w1 (command_line p ?w1 ?ip) (ansible_env ?w1 (user_key_private c)) = None"
    using assms(7) by (simp add: command_line_after_write ansible_env_after_write)
  have "setup_with_inventory p c (Some ?ip) ?w1 = (Inl OSError, ?w1)"
    by (rule setup_with_inventory_not_started
        [OF ip written_exists [OF ip] isfile_after_write [OF assms(6)] t])
  with b show ?thesis by (simp add: setup_cluster_def)
qed

text \<open>
  C2, as the code has it. For a cluster with a node whose kind is mapped to at least one
  group, when the inventory file can be opened for writing, the playbook path is a
  regular file and the tool, started on the command line and the environment that
  \<^verbatim>\<open>setup_cluster\<close> builds, exits with the code \<open>rc\<close>: \<^verbatim>\<open>setup_cluster\<close> writes the inventory
  file, launches the tool once and returns \<^verbatim>\<open>True\<close> when \<open>rc\<close> is 0 and \<^verbatim>\<open>False\<close> for every
  other exit code. Nothing is raised.
\<close>

theorem setup_result_is_exit_code:
  assumes "n \<in> set (get_all_nodes c)" and "groups p (kind n) = Some gs" and "gs \<noteq> []"
    and "storage_path p \<noteq> []" and "writable w (inventory_path_of p c)"
    and "isfile w (playbook_path p)"
    and "ansible_playbook w (command_line p w (inventory_path_of p c))
           (ansible_env w (user_key_private c)) = Some rc"
  shows "setup_cluster p c w =
     (Inr (rc = 0), p,
      w\<lparr>fs := (inventory_path_of p c,
                File (write_sections [] (dict_items w (inventory_of p c))))
               # remove_path (inventory_path_of p c) (fs w),
        launched := launched w @
          [(command_line p w (inventory_path_of p c), ansible_env w (user_key_private c))]\<rparr>)"
proof -
  let ?ip = "inventory_path_of p c"
  let ?w1 = "w\<lparr>fs := (?ip, File (write_sections [] (dict_items w (inventory_of p c))))
                       # remove_path ?ip (fs w)\<rparr>"
  have b: "build_inventory p c w = (Inr (Some ?ip), p, ?w1)"
    by (rule build_inventory_writes [OF node_with_group [OF assms(1-3)] assms(4,5)])
  have ip: "?ip \<noteq> []" by (rule writable_nonempty [OF assms(5)])
  have t: "ansible_playbook ?w1 (command_line p ?w1 ?ip) (ansible_env ?w1 (user_key_private c))
      = Some rc"
    using assms(7) by (simp add: command_line_after_write ansible_env_after_write)
  have "setup_with_inventory p c (Some ?ip) ?w1 =
     (Inr (rc = 0),
      ?w1\<lparr>launched := launched ?w1 @
        [(command_line p ?w1 ?ip, ansible_env ?w1 (user_key_private c))]\<rparr>)"
    by (rule setup_with_inventory_runs
        [OF ip written_exists [OF ip] isfile_after_write [OF assms(6)] t])
  with b show ?thesis
    by (simp add: setup_cluster_def command_line_after_write ansible_env_after_write)
qed

theorem setup_result_is_exit_code_witness:
  "ex_node \<in> set (get_all_nodes ex_cluster)
   \<and> groups ex_provider (kind ex_node) = Some [''web'']
   \<and> storage_path ex_provider = ''/tmp/x''
   \<and> writable ex_world (inventory_path_of ex_provider ex_cluster)
   \<and> isfile ex_world (playbook_path ex_provider)
   \<and> fst (setup_cluster ex_provider ex_cluster (ex_world\<lparr>ansible_playbook := exit_with 2\<rparr>)) = Inr False
   \<and> fst (setup_cluster ex_provider ex_cluster (ex_world\<lparr>ansible_playbook := exit_with 0\<rparr>)) = Inr True
   \<and> map fst (launched (snd (snd (setup_cluster ex_provider ex_cluster
        (ex_world\<lparr>ansible_playbook := exit_with 0\<rparr>)))))
      = [[''ansible-playbook'', ''/pb/site.yml'', ''--inventory=/tmp/x/ansible-inventory.a'',
          ''--sudo'', ''--sudo-user=root'', ''-v'']]"
proof -
  have n: "ex_node \<in> set (get_all_nodes ex_cluster)"
    by (simp add: ex_cluster_def)
  have g: "groups ex_provider (kind ex_node) = Some [''web'']"
    by (simp add: ex_provider_def ex_node_def)
  have sp: "storage_path ex_provider = ''/tmp/x''"
    by (simp add: ex_provider_def)
  have ip: "inventory_path_of ex_provider ex_cluster = ''/tmp/x/ansible-inventory.a''"
    by (simp add: inventory_path_of_def path_join_def fname_def inventory_file_ending_def
        ex_provider_def ex_cluster_def)
  have wr: "writable (ex_world\<lparr>ansible_playbook := t\<rparr>) (inventory_path_of ex_provider ex_cluster)" for t
    by (simp add: ip writable_def isdir_def lookup_def dirname_def rstrip_slash_def
        ex_world_def ex_fs_def)
  have f: "isfile (ex_world\<lparr>ansible_playbook := t\<rparr>) (playbook_path ex_provider)" for t
    by (simp add: isfile_def lookup_def ex_provider_def ex_world_def ex_fs_def)
  have same: "ex_world\<lparr>ansible_playbook := exit_with 2\<rparr> = ex_world"
    by (simp add: ex_world_def)
  have t: "ansible_playbook (ex_world\<lparr>ansible_playbook := exit_with rc\<rparr>) cmd env = Some rc"
    for rc cmd env
    by (simp add: exit_with_def)
  have gs: "[''web''] \<noteq> []" by simp
  note r2 = setup_result_is_exit_code [OF n g gs _ wr f t, of 2]
  note r0 = setup_result_is_exit_code [OF n g gs _ wr f t, of 0]
  have 2: "fst (setup_cluster ex_provider ex_cluster (ex_world\<lparr>ansible_playbook := exit_with 2\<rparr>))
      = Inr False"
    using r2 by (simp add: sp)
  have 0: "fst (setup_cluster ex_provider ex_cluster (ex_world\<lparr>ansible_playbook := exit_with 0\<rparr>))
      = Inr True"
    using r0 by (simp add: sp)
  have c: "map fst (launched (snd (snd (setup_cluster ex_provider ex_cluster
        (ex_world\<lparr>ansible_playbook := exit_with 0\<rparr>)))))
      = [[''ansible-playbook'', ''/pb/site.yml'', ''--inventory=/tmp/x/ansible-inventory.a'',
          ''--sudo'', ''--sudo-user=root'', ''-v'']]"
    using r0
    by (simp add: sp ip)
      (simp add: command_line_def verbosity_def logging_WARNING_def ex_world_def
        ex_provider_def)
  from n g sp wr [of "exit_with 2"] f [of "exit_with 2"] 2 0 c show ?thesis
    by (simp add: same)
qed

text \<open>
  C2, as stated, fails. A node whose kind is mapped to the empty list of groups has its
  kind in \<^verbatim>\<open>groups\<close>, yet the inventory is empty and \<^verbatim>\<open>setup_cluster\<close> returns \<^verbatim>\<open>True\<close>
  without running the tool, here a tool that would exit with code 2. With a node
  mapped to a group and a tool that exits with code 0, a missing playbook makes
  \<^verbatim>\<open>setup_cluster\<close> raise \<^verbatim>\<open>AnsibleError\<close>, and a missing storage directory makes it raise
  the \<^verbatim>\<open>IOError\<close> of \<^verbatim>\<open>open\<close>, instead of returning \<^verbatim>\<open>True\<close>.
\<close>

theorem setup_exit_code_counterexample:
  "groups (ex_provider\<lparr>groups := [''frontend'' \<mapsto> []]\<rparr>) (kind ex_node) = Some []
   \<and> get_all_nodes ex_cluster = [ex_node]
   \<and> ansible_playbook ex_world = exit_with 2
   \<and> setup_cluster (ex_provider\<lparr>groups := [''frontend'' \<mapsto> []]\<rparr>) ex_cluster ex_world
       = (Inr True, ex_provider\<lparr>groups := [''frontend'' \<mapsto> []]\<rparr>, ex_world)
   \<and> groups ex_provider (kind ex_node) = Some [''web'']
   \<and> fst (setup_cluster (ex_provider\<lparr>playbook_path := ''/pb/missing.yml''\<rparr>) ex_cluster
            (ex_world\<lparr>ansible_playbook := exit_with 0\<rparr>))
       = Inl (AnsibleError ''playbook `/pb/missing.yml` could not be found'')
   \<and> fst (setup_cluster ex_provider ex_cluster
            (ex_world\<lparr>ansible_playbook := exit_with 0, fs := [(''/pb/site.yml'', File [])]\<rparr>))
       = Inl IOError"
  by (simp add: ex_empty_group_list ex_missing_playbook ex_missing_storage)
    (simp add: ex_provider_def ex_node_def ex_cluster_def ex_world_def)

text \<open>
  C3, as the code has it. Once \<^verbatim>\<open>_build_inventory\<close> has returned a path, a missing
  inventory file, a missing playbook or a playbook that is not a regular file makes
  \<^verbatim>\<open>setup_cluster\<close> raise \<^verbatim>\<open>AnsibleError\<close>; the world is the one \<^verbatim>\<open>_build_inventory\<close> left,
  so no child process has been launched. The first part states this for the body of
  \<^verbatim>\<open>setup_cluster\<close> in any world, the second for \<^verbatim>\<open>setup_cluster\<close> itself. When
  \<^verbatim>\<open>_build_inventory\<close> returns \<^verbatim>\<open>None\<close>, \<^verbatim>\<open>setup_cluster\<close> returns \<^verbatim>\<open>True\<close> and the playbook
  path is never looked at.
\<close>

theorem configuration_errors_raise:
  "(ip \<noteq> [] \<and> (\<not> path_exists w ip \<or> \<not> path_exists w (playbook_path p) \<or> \<not> isfile w (playbook_path p))
      \<longrightarrow> (\<exists>msg. setup_with_inventory p c (Some ip) w = (Inl (AnsibleError msg), w)))
   \<and> (build_inventory p c w = (Inr (Some ip), p1, w1)
        \<and> (\<not> path_exists w1 (playbook_path p1) \<or> \<not> isfile w1 (playbook_path p1))
      \<longrightarrow> (\<exists>msg. setup_cluster p c w = (Inl (AnsibleError msg), p1, w1)) \<and> launched w1 = launched w)
   \<and> (build_inventory p c w = (Inr None, p1, w1) \<longrightarrow> setup_cluster p c w = (Inr True, p1, w1))"
proof (intro conjI impI)
  assume "ip \<noteq> [] \<and> (\<not> path_exists w ip \<or> \<not> path_exists w (playbook_path p) \<or> \<not> isfile w (playbook_path p))"
  then show "\<exists>msg. setup_with_inventory p c (Some ip) w = (Inl (AnsibleError msg), w)"
    using setup_with_inventory_raises by blast
next
  assume a: "build_inventory p c w = (Inr (Some ip), p1, w1)
        \<and> (\<not> path_exists w1 (playbook_path p1) \<or> \<not> isfile w1 (playbook_path p1))"
  from a have ip: "ip \<noteq> []" by (blast dest: build_inventory_Some(1))
  from a setup_with_inventory_raises [OF ip, of w1 p1 c]
  obtain msg where "setup_with_inventory p1 c (Some ip) w1 = (Inl (AnsibleError msg), w1)"
    by blast
  with a show "\<exists>msg. setup_cluster p c w = (Inl (AnsibleError msg), p1, w1)"
    by (simp add: setup_cluster_def)
next
  assume a: "build_inventory p c w = (Inr (Some ip), p1, w1)
        \<and> (\<not> path_exists w1 (playbook_path p1) \<or> \<not> isfile w1 (playbook_path p1))"
  then show "launched w1 = launched w"
    using launched_build_inventory by blast
next
  assume "build_inventory p c w = (Inr None, p1, w1)"
  then show "setup_cluster p c w = (Inr True, p1, w1)"
    by (simp add: setup_cluster_def setup_with_inventory_def truthy_def)
qed


theorem configuration_errors_raise_witness:
  "\<not> path_exists ex_world ''/tmp/x/ansible-inventory.a''
   \<and> (\<exists>msg. setup_with_inventory ex_provider ex_cluster (Some ''/tmp/x/ansible-inventory.a'') ex_world
         = (Inl (AnsibleError msg), ex_world))
   \<and> \<not> path_exists ex_world_written ''/pb/missing.yml''
   \<and> (\<exists>msg. setup_cluster (ex_provider\<lparr>playbook_path := ''/pb/missing.yml''\<rparr>) ex_cluster ex_world
         = (Inl (AnsibleError msg), ex_provider\<lparr>playbook_path := ''/pb/missing.yml''\<rparr>,
            ex_world_written))
   \<and> launched ex_world_written = launched ex_world
   \<and> setup_cluster (ex_provider\<lparr>groups := [''frontend'' \<mapsto> []]\<rparr>) ex_cluster ex_world
      = (Inr True, ex_provider\<lparr>groups := [''frontend'' \<mapsto> []]\<rparr>, ex_world)"
proof -
  have w: "ex_world\<lparr>ansible_playbook := exit_with 2\<rparr> = ex_world"
    "ex_world_written\<lparr>ansible_playbook := exit_with 2\<rparr> = ex_world_written"
    by (simp_all add: ex_world_written_def ex_world_def)
  have a: "\<not> path_exists ex_world ''/tmp/x/ansible-inventory.a''"
    by (simp add: path_exists_def lookup_def ex_world_def ex_fs_def)
  have b: "build_inventory (ex_provider\<lparr>playbook_path := ''/pb/missing.yml''\<rparr>) ex_cluster ex_world
      = (Inr (Some ''/tmp/x/ansible-inventory.a''),
         ex_provider\<lparr>playbook_path := ''/pb/missing.yml''\<rparr>, ex_world_written)"
    using ex_build_inventory_any [of "''/pb/missing.yml''" "exit_with 2"] by (simp add: w)
  have m: "\<not> path_exists ex_world_written ''/pb/missing.yml''"
    using ex_no_missing_playbook [of "exit_with 2"] by (simp add: w)
  have n: "build_inventory (ex_provider\<lparr>groups := [''frontend'' \<mapsto> []]\<rparr>) ex_cluster ex_world
      = (Inr None, ex_provider\<lparr>groups := [''frontend'' \<mapsto> []]\<rparr>, ex_world)"
    by (simp add: build_inventory_def inventory_of_def ex_cluster_def ex_node_def)
  have 1: "\<exists>msg. setup_with_inventory ex_provider ex_cluster (Some ''/tmp/x/ansible-inventory.a'') ex_world
         = (Inl (AnsibleError msg), ex_world)"
    using configuration_errors_raise
      [where ip = "''/tmp/x/ansible-inventory.a''" and w = ex_world and p = ex_provider
        and c = ex_cluster] a
    by simp
  have 2: "(\<exists>msg. setup_cluster (ex_provider\<lparr>playbook_path := ''/pb/missing.yml''\<rparr>) ex_cluster ex_world
         = (Inl (AnsibleError msg), ex_provider\<lparr>playbook_path := ''/pb/missing.yml''\<rparr>,
            ex_world_written)) \<and> launched ex_world_written = launched ex_world"
    using configuration_errors_raise
      [where p = "ex_provider\<lparr>playbook_path := ''/pb/missing.yml''\<rparr>" and c = ex_cluster
        and w = ex_world and ip = "''/tmp/x/ansible-inventory.a''"
        and ?p1.0 = "ex_provider\<lparr>playbook_path := ''/pb/missing.yml''\<rparr>"
        and ?w1.0 = ex_world_written] b m
    by simp
  have 3: "setup_cluster (ex_provider\<lparr>groups := [''frontend'' \<mapsto> []]\<rparr>) ex_cluster ex_world
      = (Inr True, ex_provider\<lparr>groups := [''frontend'' \<mapsto> []]\<rparr>, ex_world)"
    using configuration_errors_raise
      [where p = "ex_provider\<lparr>groups := [''frontend'' \<mapsto> []]\<rparr>" and c = ex_cluster
        and w = ex_world and ?p1.0 = "ex_provider\<lparr>groups := [''frontend'' \<mapsto> []]\<rparr>"
        and ?w1.0 = ex_world] n
    by simp
  from a 1 m 2 3 show ?thesis by blast
qed


text \<open>
  C3, as stated, fails when no inventory is generated: with no node of a configured
  kind and a playbook path that does not exist, \<^verbatim>\<open>setup_cluster\<close> returns \<^verbatim>\<open>True\<close>.
\<close>

theorem configuration_errors_counterexample:
  "\<not> path_exists ex_world ''/pb/missing.yml''
   \<and> playbook_path (ex_provider\<lparr>groups := [''worker'' \<mapsto> [''web'']],
                                 playbook_path := ''/pb/missing.yml''\<rparr>) = ''/pb/missing.yml''
   \<and> setup_cluster (ex_provider\<lparr>groups := [''worker'' \<mapsto> [''web'']],
                                 playbook_path := ''/pb/missing.yml''\<rparr>) ex_cluster ex_world
      = (Inr True,
         ex_provider\<lparr>groups := [''worker'' \<mapsto> [''web'']], playbook_path := ''/pb/missing.yml''\<rparr>,
         ex_world)"
  by (simp add: ex_unconfigured) (simp add: path_exists_def lookup_def ex_world_def ex_fs_def)


subsection \<open>Parsing the module directories\<close>

lemma sep_not_space: "is_sep c \<Longrightarrow> \<not> is_space c"
  by (auto simp: is_sep_def is_space_def)

lemma split_at_seps_nonempty: "split_at_seps cur s \<noteq> []"
  by (induction s arbitrary: cur) auto

lemma split_at_seps_cur:
  "split_at_seps cur s = (cur @ hd (split_at_seps [] s)) # tl (split_at_seps [] s)"
proof (induction s arbitrary: cur)
  case Nil
  show ?case by simp
next
  case (Cons c s)
  show ?case
  proof (cases "is_sep c")
    case True
    then show ?thesis by simp
  next
    case False
    then show ?thesis
      using Cons [of "cur @ [c]"] Cons [of "[c]"] by simp
  qed
qed

lemma split_at_seps_spaces:
  "\<forall>c \<in> set ws. is_space c \<Longrightarrow> split_at_seps cur (ws @ s) = split_at_seps (cur @ ws) s"
  by (induction ws arbitrary: cur) (auto dest: sep_not_space)

lemma strip_spaces_right: "\<forall>c \<in> set ws. is_space c \<Longrightarrow> strip (x @ ws) = strip x"
proof (cases "\<forall>c \<in> set x. is_space c")
  case True
  assume "\<forall>c \<in> set ws. is_space c"
  with True have a: "dropWhile is_space (x @ ws) = []" and b: "dropWhile is_space x = []"
    by (simp_all add: dropWhile_eq_Nil_conv)
  show ?thesis unfolding strip_def a b by simp
next
  case False
  assume ws: "\<forall>c \<in> set ws. is_space c"
  from False obtain y where "y \<in> set x" "\<not> is_space y" by blast
  then have "dropWhile is_space (x @ ws) = dropWhile is_space x @ ws"
    by (rule dropWhile_append1)
  moreover have "dropWhile is_space (rev ws @ rev (dropWhile is_space x))
      = dropWhile is_space (rev (dropWhile is_space x))"
    using ws by (intro dropWhile_append2) auto
  ultimately show ?thesis
    by (simp add: strip_def)
qed

lemma strip_spaces_left: "\<forall>c \<in> set ws. is_space c \<Longrightarrow> strip (ws @ x) = strip x"
proof -
  assume "\<forall>c \<in> set ws. is_space c"
  then have "dropWhile is_space (ws @ x) = dropWhile is_space x"
    by (intro dropWhile_append2) auto
  then show ?thesis by (simp add: strip_def)
qed

lemma match_sep_Some:
  assumes "match_sep s = Some rest"
  obtains ws sep r where "s = ws @ sep # r" "\<forall>c \<in> set ws. is_space c" "is_sep sep"
    "rest = dropWhile is_space r"
proof -
  from assms obtain sep r where d: "dropWhile is_space s = sep # r" and sep: "is_sep sep"
    and rest: "rest = dropWhile is_space r"
    by (auto simp: match_sep_def split: list.splits if_splits)
  have "s = takeWhile is_space s @ sep # r"
    using takeWhile_dropWhile_id [of is_space s] d by simp
  moreover have "\<forall>c \<in> set (takeWhile is_space s). is_space c"
    by (auto dest: set_takeWhileD)
  ultimately show ?thesis using sep rest that by blast
qed

lemma match_sep_None: "match_sep (c # cs) = None \<Longrightarrow> \<not> is_sep c"
  by (auto simp: match_sep_def dest: sep_not_space split: list.splits if_splits)

lemma strip_split_dropWhile:
  "map strip (split_at_seps [] (dropWhile is_space r)) = map strip (split_at_seps [] r)"
proof -
  let ?X = "split_at_seps [] (dropWhile is_space r)"
  have sp: "\<forall>c \<in> set (takeWhile is_space r). is_space c"
    by (auto dest: set_takeWhileD)
  have "split_at_seps [] (takeWhile is_space r @ dropWhile is_space r)
      = split_at_seps ([] @ takeWhile is_space r) (dropWhile is_space r)"
    by (rule split_at_seps_spaces [OF sp])
  then have "split_at_seps [] r = split_at_seps (takeWhile is_space r) (dropWhile is_space r)"
    by simp
  also have "\<dots> = (takeWhile is_space r @ hd ?X) # tl ?X"
    by (rule split_at_seps_cur)
  finally have "map strip (split_at_seps [] r) = strip (hd ?X) # map strip (tl ?X)"
    by (simp add: strip_spaces_left [OF sp])
  also have "\<dots> = map strip ?X"
    using split_at_seps_nonempty [of "[]" "dropWhile is_space r"]
    by (cases ?X) auto
  finally show ?thesis by simp
qed

lemma PATH_SPLIT_RE_split_trim:
  "map strip (PATH_SPLIT_RE_split cur s) = map strip (split_at_seps cur s)"
proof (induction cur s rule: PATH_SPLIT_RE_split.induct)
  case (1 cur)
  show ?case by simp
next
  case (2 cur c cs)
  show ?case
  proof (cases "match_sep (c # cs)")
    case None
    with 2(1) [OF None] match_sep_None [OF None] show ?thesis by simp
  next
    case (Some rest)
    then obtain ws sep r where s: "c # cs = ws @ sep # r" and ws: "\<forall>c \<in> set ws. is_space c"
      and sep: "is_sep sep" and rest: "rest = dropWhile is_space r"
      by (rule match_sep_Some)
    have "map strip (split_at_seps cur (c # cs)) = map strip (split_at_seps (cur @ ws) (sep # r))"
      unfolding s using split_at_seps_spaces [OF ws] by simp
    also have "\<dots> = strip cur # map strip (split_at_seps [] r)"
      using sep by (simp add: strip_spaces_right [OF ws])
    also have "\<dots> = strip cur # map strip (split_at_seps [] rest)"
      by (simp add: rest strip_split_dropWhile)
    also have "\<dots> = map strip (PATH_SPLIT_RE_split cur (c # cs))"
      using 2(2) [OF Some] Some by simp
    finally show ?thesis by simp
  qed
qed

lemma strip_ends: "strip s = [] \<or> (\<not> is_space (hd (strip s)) \<and> \<not> is_space (last (strip s)))"
proof (cases "strip s = []")
  case True
  then show ?thesis by simp
next
  case False
  let ?t = "dropWhile is_space s"
  let ?u = "dropWhile is_space (rev ?t)"
  from False have u: "?u \<noteq> []" by (simp add: strip_def)
  then have "\<not> is_space (hd ?u)" by (rule hd_dropWhile)
  then have l: "\<not> is_space (last (strip s))"
    using u by (simp add: strip_def last_rev)
  from u have "rev ?t \<noteq> []" by (metis dropWhile.simps(1))
  then have t: "?t \<noteq> []" by simp
  then have ht: "\<not> is_space (hd ?t)" by (rule hd_dropWhile)
  have "rev ?t = takeWhile is_space (rev ?t) @ ?u" by simp
  then have "?t = rev ?u @ rev (takeWhile is_space (rev ?t))"
    by (metis rev_append rev_rev_ident)
  with u have "hd ?t = hd (rev ?u)" by (metis hd_append2 rev_is_Nil_conv)
  with ht have "\<not> is_space (hd (strip s))" by (simp add: strip_def)
  with l show ?thesis by simp
qed

text \<open>
  C7. An argument \<^verbatim>\<open>ansible_module_dir\<close> that is not given, or is empty, gives the empty
  list; \<^verbatim>\<open>"a, b:c"\<close> gives \<^verbatim>\<open>["a", "b", "c"]\<close>. For every other string, splitting with
  \<^verbatim>\<open>_PATH_SPLIT_RE\<close> and stripping each piece gives, in order, the pieces between the
  commas and colons of the string, each stripped of white space at both ends; no
  element of the result begins or ends with white space.
\<close>

theorem module_dir_parsing:
  "parse_module_dir None = []
   \<and> parse_module_dir (Some []) = []
   \<and> parse_module_dir (Some ''a, b:c'') = [''a'', ''b'', ''c'']
   \<and> (s \<noteq> [] \<longrightarrow> parse_module_dir (Some s) = split_and_trim s)
   \<and> (\<forall>x \<in> set (parse_module_dir arg). x = [] \<or> (\<not> is_space (hd x) \<and> \<not> is_space (last x)))"
proof -
  have g: "s \<noteq> [] \<longrightarrow> parse_module_dir (Some s) = split_and_trim s" for s
    by (simp add: parse_module_dir_def truthy_def split_and_trim_def PATH_SPLIT_RE_split_trim)
  have e: "split_and_trim ''a, b:c'' = [''a'', ''b'', ''c'']"
    by (simp add: split_and_trim_def is_sep_def strip_def is_space_def)
  have t: "\<forall>x \<in> set (parse_module_dir arg). x = [] \<or> (\<not> is_space (hd x) \<and> \<not> is_space (last x))"
    using strip_ends by (auto simp: parse_module_dir_def)
  from g [of s] g [of "''a, b:c''"] e t show ?thesis
    by (simp add: parse_module_dir_def truthy_def)
qed

theorem module_dir_parsing_witness:
  "'' x/y ,, /z : w '' \<noteq> []
   \<and> parse_module_dir (Some '' x/y ,, /z : w '') = [''x/y'', [], ''/z'', ''w'']
   \<and> split_and_trim '' x/y ,, /z : w '' = [''x/y'', [], ''/z'', ''w'']
   \<and> ''x/y'' \<in> set (parse_module_dir (Some '' x/y ,, /z : w ''))
   \<and> \<not> is_space (hd ''x/y'') \<and> \<not> is_space (last ''x/y'')"
proof -
  have e: "split_and_trim '' x/y ,, /z : w '' = [''x/y'', [], ''/z'', ''w'']"
    by (simp add: split_and_trim_def is_sep_def strip_def is_space_def)
  from module_dir_parsing [of "'' x/y ,, /z : w ''" "Some '' x/y ,, /z : w ''"] e
  show ?thesis by (simp add: is_space_def)
qed

subsection \<open>The paths resolved by the constructor\<close>

lemma expanduser_no_tilde: "x = [] \<or> hd x \<noteq> CHR ''~'' \<Longrightarrow> expanduser w x = x"
  by (cases x) (auto simp: expanduser_def)

lemma expandvars_env_no_dollar: "CHR ''$'' \<notin> set x \<Longrightarrow> expandvars_env env x = x"
  by (induction x) auto

lemma expandvars_isabs: "isabs x \<Longrightarrow> isabs (expandvars w x)"
  by (cases x) (auto simp: isabs_def expandvars_def)

lemma expand_isabs: "isabs x \<Longrightarrow> isabs (expandvars w (expanduser w x))"
proof -
  assume a: "isabs x"
  then have "hd x \<noteq> CHR ''~''" by (auto simp: isabs_def)
  then have "expanduser w x = x" by (simp add: expanduser_no_tilde)
  with a show ?thesis by (simp add: expandvars_isabs)
qed

lemma expand_plain:
  "x = [] \<or> hd x \<noteq> CHR ''~'' \<Longrightarrow> CHR ''$'' \<notin> set x \<Longrightarrow> expandvars w (expanduser w x) = x"
  by (simp add: expanduser_no_tilde expandvars_def expandvars_env_no_dollar)

lemma init_paths:
  assumes "init g pb env sp sd su md pl w = Inr (p, w')"
  shows "playbook_path p = resolve_playbook_path w pb"
    and "truthy sp \<Longrightarrow> storage_path p = expandvars w (expanduser w (the sp)) \<and> \<not> storage_path_tmp p"
  using assms
  by (auto simp: init_def resolve_storage_path_def Let_def
      split: sum.splits if_splits prod.splits)

lemma ex_expand:
  "expandvars ex_world (expanduser ex_world ''~/$D/${HOME}.yml'') = ''/home/u/$D//home/u.yml''"
  by (simp add: expanduser_def expandvars_def ex_world_def rstrip_slash_def var_token_def
      is_word_def Let_def)

lemma ex_init_expanded:
  "init (groups ex_provider) (Some ''~/$D/${HOME}.yml'') Map.empty (Some ''/tmp/x'') True ''root'' None True
      ex_world
    = Inr (ex_provider\<lparr>playbook_path := ''/home/u/$D//home/u.yml'', storage_path_tmp := False\<rparr>,
           ex_world)"
proof -
  have n: "path_exists ex_world ''/tmp/x''"
    by (simp add: path_exists_def lookup_def ex_world_def ex_fs_def)
  have sp: "resolve_storage_path ex_world (Some ''/tmp/x'') = Inr (''/tmp/x'', False, ex_world)"
    by (simp add: resolve_storage_path_def truthy_def expand_plain Let_def n)
  have pb: "resolve_playbook_path ex_world (Some ''~/$D/${HOME}.yml'') = ''/home/u/$D//home/u.yml''"
    by (simp add: resolve_playbook_path_def truthy_def ex_expand)
  show ?thesis
    by (simp add: init_def sp pb parse_module_dir_def truthy_def ex_provider_def)
qed

lemma ex_init_relative:
  "init (groups ex_provider) (Some ''site.yml'') Map.empty (Some ''stor'') True ''root'' None True
      ex_world
    = Inr (ex_provider\<lparr>playbook_path := ''site.yml'', storage_path := ''stor'',
                       storage_path_tmp := False\<rparr>,
           ex_world\<lparr>fs := (''stor'', Dir) # ex_fs\<rparr>)"
proof -
  have m: "makedirs ex_world ''stor'' = Inr (ex_world\<lparr>fs := (''stor'', Dir) # ex_fs\<rparr>)"
    by (simp add: makedirs_def ancestors_def path_exists_def lookup_def ex_world_def ex_fs_def
        upt_conv_Cons)
  have n: "\<not> path_exists ex_world ''stor''"
    by (simp add: path_exists_def lookup_def ex_world_def ex_fs_def)
  have sp: "resolve_storage_path ex_world (Some ''stor'')
      = Inr (''stor'', False, ex_world\<lparr>fs := (''stor'', Dir) # ex_fs\<rparr>)"
    by (simp add: resolve_storage_path_def truthy_def expand_plain Let_def m n)
  have pb: "resolve_playbook_path ex_world (Some ''site.yml'') = ''site.yml''"
    by (simp add: resolve_playbook_path_def truthy_def expand_plain)
  show ?thesis
    by (simp add: init_def sp pb parse_module_dir_def truthy_def ex_provider_def)
qed

text \<open>
  C8, as the code has it. A playbook path or storage path given to the constructor is
  stored after \<^verbatim>\<open>expanduser\<close> and then \<^verbatim>\<open>expandvars\<close>. Nothing makes it absolute: an
  absolute path stays absolute, and a path with no leading tilde and no dollar sign is
  stored as it was given.
\<close>

theorem resolved_paths:
  assumes "init g pb env sp sd su md pl w = Inr (p, w')"
  shows "(\<forall>x. pb = Some x \<and> x \<noteq> [] \<longrightarrow>
            playbook_path p = expandvars w (expanduser w x)
            \<and> (isabs x \<longrightarrow> isabs (playbook_path p))
            \<and> (hd x \<noteq> CHR ''~'' \<and> CHR ''$'' \<notin> set x \<longrightarrow> playbook_path p = x))
       \<and> (\<forall>x. sp = Some x \<and> x \<noteq> [] \<longrightarrow>
            storage_path p = expandvars w (expanduser w x)
            \<and> (isabs x \<longrightarrow> isabs (storage_path p))
            \<and> (hd x \<noteq> CHR ''~'' \<and> CHR ''$'' \<notin> set x \<longrightarrow> storage_path p = x))"
proof -
  have pb: "playbook_path p = expandvars w (expanduser w x)" if "pb = Some x" "x \<noteq> []" for x
    using init_paths(1) [OF assms] that by (simp add: resolve_playbook_path_def truthy_def)
  have sp: "storage_path p = expandvars w (expanduser w x)" if "sp = Some x" "x \<noteq> []" for x
    using init_paths(2) [OF assms] that by (simp add: truthy_def)
  show ?thesis
    using pb sp by (auto simp: expand_isabs expand_plain)
qed

theorem resolved_paths_witness:
  "init (groups ex_provider) (Some ''~/$D/${HOME}.yml'') Map.empty (Some ''/tmp/x'') True ''root'' None True
      ex_world
    = Inr (ex_provider\<lparr>playbook_path := ''/home/u/$D//home/u.yml'', storage_path_tmp := False\<rparr>,
           ex_world)
   \<and> expandvars ex_world (expanduser ex_world ''~/$D/${HOME}.yml'') = ''/home/u/$D//home/u.yml''
   \<and> isabs ''/tmp/x'' \<and> hd ''/tmp/x'' \<noteq> CHR ''~'' \<and> CHR ''$'' \<notin> set ''/tmp/x''
   \<and> storage_path (ex_provider\<lparr>playbook_path := ''/home/u/$D//home/u.yml'', storage_path_tmp := False\<rparr>)
       = ''/tmp/x''"
  using resolved_paths [OF ex_init_expanded] ex_init_expanded ex_expand
  by (simp add: isabs_def expand_plain)


text \<open>
  C8, as stated, fails on relative paths: the playbook path \<^verbatim>\<open>site.yml\<close> and the storage
  path \<^verbatim>\<open>stor\<close> are stored unchanged, and neither is absolute.
\<close>

theorem resolved_paths_counterexample:
  "init (groups ex_provider) (Some ''site.yml'') Map.empty (Some ''stor'') True ''root'' None True
      ex_world
    = Inr (ex_provider\<lparr>playbook_path := ''site.yml'', storage_path := ''stor'',
                       storage_path_tmp := False\<rparr>,
           ex_world\<lparr>fs := (''stor'', Dir) # ex_fs\<rparr>)
   \<and> \<not> isabs ''site.yml'' \<and> \<not> isabs ''stor''"
  by (simp add: ex_init_relative isabs_def)


subsection \<open>cleanup\<close>

lemma lookup_unlink:
  "unlink w p = Inr w1 \<Longrightarrow> lookup w1 q = (if q = p then None else lookup w q)"
  by (auto simp: unlink_def lookup_def map_of_remove_path split: if_splits)

lemma unlink_error: "unlink w p = Inl ex \<Longrightarrow> ex = OSError"
  by (auto simp: unlink_def split: if_splits)

lemma listdir_error: "listdir w p = Inl ex \<Longrightarrow> ex = OSError"
  by (auto simp: listdir_def split: if_splits)

lemma rmtree_error: "rmtree w p = Inl ex \<Longrightarrow> ex = OSError"
  by (auto simp: rmtree_def split: if_splits)

lemma map_of_filter_below:
  "map_of (filter (\<lambda>(q, e). \<not> below d q) xs) q = (if below d q then None else map_of xs q)"
  by (induction xs) auto

lemma lookup_rmtree:
  "rmtree w d = Inr w2 \<Longrightarrow> lookup w2 q = (if below d q then None else lookup w q)"
  by (auto simp: rmtree_def lookup_def map_of_filter_below split: if_splits)

lemma strip_prefix_Some: "strip_prefix xs ys = Some zs \<longleftrightarrow> ys = xs @ zs"
  by (induction xs ys rule: strip_prefix.induct) auto

lemma path_join_fname: "d \<noteq> [] \<Longrightarrow> path_join d (fname c) = dir_prefix d @ fname c"
  by (simp add: path_join_def dir_prefix_def fname_def inventory_file_ending_def)

lemma path_join_fname_neq: "path_join d (fname c) \<noteq> d"
  by (simp add: path_join_def fname_def inventory_file_ending_def)

lemma path_join_fname_inj:
  "path_join d (fname a) = path_join d (fname b) \<Longrightarrow> cluster_name a = cluster_name b"
  by (simp add: path_join_def fname_def inventory_file_ending_def split: if_splits)

lemma cleanup_noop:
  "storage_path p = [] \<or> \<not> path_exists w (storage_path p)
     \<or> \<not> path_exists w (inventory_path_of p c) \<Longrightarrow> cleanup p c w = Inr w"
  by (auto simp: cleanup_def inventory_path_of_def)

lemma cleanup_cases:
  assumes "cleanup p c w = Inr w'"
  shows "w' = w \<or>
     (\<exists>w1. unlink w (inventory_path_of p c) = Inr w1 \<and>
        (w' = w1 \<or>
         storage_path_tmp p \<and> listdir w1 (storage_path p) = Inr [] \<and>
         rmtree w1 (storage_path p) = Inr w'))"
  using assms
  by (auto simp: cleanup_def inventory_path_of_def Let_def except_OSError_def
      split: if_splits sum.splits)

lemma cleanup_total: "\<exists>w'. cleanup p c w = Inr w'"
  by (auto simp: cleanup_def Let_def except_OSError_def
      dest!: unlink_error listdir_error rmtree_error split: sum.splits)

lemma cleanup_removed:
  assumes "cleanup p c w = Inr w'"
  shows "w' = w \<or> \<not> path_exists w' (inventory_path_of p c)"
proof -
  from cleanup_cases [OF assms] show ?thesis
  proof (elim disjE exE conjE)
    assume "w' = w"
    then show ?thesis by simp
  next
    fix w1 assume "unlink w (inventory_path_of p c) = Inr w1" "w' = w1"
    then show ?thesis by (simp add: path_exists_def lookup_unlink)
  next
    fix w1 assume u: "unlink w (inventory_path_of p c) = Inr w1"
      and r: "rmtree w1 (storage_path p) = Inr w'"
    show ?thesis
      by (simp add: path_exists_def lookup_rmtree [OF r] lookup_unlink [OF u])
  qed
qed

lemma cleanup_twice:
  assumes "cleanup p c w = Inr w'"
  shows "cleanup p c w' = Inr w'"
  using cleanup_removed [OF assms] assms cleanup_noop [of p w' c] by auto

lemma cleanup_unlinked:
  assumes "storage_path p \<noteq> []" "path_exists w (storage_path p)"
    and "unlink w (inventory_path_of p c) = Inr w1" and "cleanup p c w = Inr w'"
  shows "\<not> path_exists w' (inventory_path_of p c)"
proof -
  have ex: "path_exists w (inventory_path_of p c)"
    using assms(3) by (auto simp: unlink_def isfile_def path_exists_def split: if_splits option.splits)
  have 1: "\<not> path_exists w1 (inventory_path_of p c)"
    by (simp add: path_exists_def lookup_unlink [OF assms(3)])
  have 2: "\<not> path_exists w2 (inventory_path_of p c)" if "rmtree w1 (storage_path p) = Inr w2" for w2
    using 1 by (simp add: path_exists_def lookup_rmtree [OF that])
  from assms ex 1 2 show ?thesis
    by (auto simp: cleanup_def inventory_path_of_def Let_def except_OSError_def
        split: if_splits sum.splits)
qed

lemma cleanup_residual:
  assumes "cleanup p c w = Inr w'" and "path_exists w' (inventory_path_of p c)"
  shows "w' = w \<and> (storage_path p = [] \<or> \<not> path_exists w (storage_path p)
            \<or> unlink w (inventory_path_of p c) = Inl OSError)"
proof -
  from cleanup_removed [OF assms(1)] assms(2) have eq: "w' = w" by blast
  have "unlink w (inventory_path_of p c) = Inl OSError"
    if "storage_path p \<noteq> []" "path_exists w (storage_path p)"
  proof (cases "unlink w (inventory_path_of p c)")
    case (Inl ex)
    then show ?thesis using unlink_error by blast
  next
    case (Inr w1)
    from cleanup_unlinked [OF that Inr assms(1)] assms(2) show ?thesis by simp
  qed
  with eq show ?thesis by blast
qed

lemma set_map_filter_iff:
  "y \<in> set (List.map_filter f xs) \<longleftrightarrow> (\<exists>x \<in> set xs. f x = Some y)"
  by (induction xs) (auto split: option.splits)

lemma children_mem:
  "n \<in> set (children w d) \<longleftrightarrow> (\<exists>q \<in> fst ` set (fs w). child_name d q = Some n)"
  by (simp add: children_def set_map_filter_iff)

lemma child_name_path: "child_name d q = Some n \<Longrightarrow> q = dir_prefix d @ n"
  by (auto simp: child_name_def strip_prefix_Some split: option.splits if_splits)

lemma fs_unlink:
  "unlink w p = Inr w1 \<Longrightarrow> fst ` set (fs w1) = fst ` set (fs w) - {p}"
  by (auto simp: unlink_def remove_path_def split: if_splits)

lemma listed_exists:
  assumes "listdir w d = Inr names" "n \<in> set names"
  shows "d \<noteq> []" and "isdir w d" and "path_exists w (dir_prefix d @ n)"
    and "dir_prefix d @ n \<in> fst ` set (fs w)"
    and "child_name d (dir_prefix d @ n) = Some n"
proof -
  from assms(1) show d: "isdir w d" by (auto simp: listdir_def split: if_splits)
  then show "d \<noteq> []" by (auto simp: isdir_def lookup_def split: if_splits)
  from assms have "n \<in> set (children w d)" by (auto simp: listdir_def split: if_splits)
  then obtain q where q: "q \<in> fst ` set (fs w)" "child_name d q = Some n"
    by (auto simp: children_mem)
  from child_name_path [OF q(2)] have eq: "q = dir_prefix d @ n" .
  from q eq show m: "dir_prefix d @ n \<in> fst ` set (fs w)" by simp
  from q eq show "child_name d (dir_prefix d @ n) = Some n" by simp
  have "dir_prefix d @ n \<noteq> []" by (simp add: dir_prefix_def)
  moreover from m have "map_of (fs w) (dir_prefix d @ n) \<noteq> None"
    by (simp add: map_of_eq_None_iff)
  ultimately show "path_exists w (dir_prefix d @ n)"
    by (simp add: path_exists_def lookup_def)
qed

lemma unlink_keeps_listed:
  assumes u: "unlink w q = Inr w1" and m: "dir_prefix d @ n \<in> fst ` set (fs w)"
    and c: "child_name d (dir_prefix d @ n) = Some n" and neq: "q \<noteq> dir_prefix d @ n"
  shows "n \<in> set (children w1 d)"
proof -
  from m neq have "dir_prefix d @ n \<in> fst ` set (fs w1)"
    unfolding fs_unlink [OF u] by simp
  with c show ?thesis unfolding children_mem by blast
qed

lemma cleanup_keeps_listed:
  assumes l: "listdir w (storage_path p) = Inr names" and n: "fname b \<in> set names"
    and ab: "cluster_name a \<noteq> cluster_name b"
  shows "\<exists>w'. cleanup p a w = Inr w' \<and> isdir w' (storage_path p)
          \<and> lookup w' (inventory_path_of p b) = lookup w (inventory_path_of p b)
          \<and> path_exists w' (inventory_path_of p b)
          \<and> (\<exists>names'. listdir w' (storage_path p) = Inr names' \<and> fname b \<in> set names')"
proof -
  let ?d = "storage_path p"
  note le = listed_exists [OF l n]
  have ipb: "inventory_path_of p b = dir_prefix ?d @ fname b"
    using le(1) by (simp add: inventory_path_of_def path_join_fname)
  have neq: "inventory_path_of p a \<noteq> dir_prefix ?d @ fname b"
    using ab path_join_fname_inj [of ?d a b] ipb by (auto simp: inventory_path_of_def)
  have nd: "inventory_path_of p a \<noteq> ?d"
    by (simp add: inventory_path_of_def path_join_fname_neq)
  obtain w' where c: "cleanup p a w = Inr w'" using cleanup_total by blast
  have same: "w' = w \<or> unlink w (inventory_path_of p a) = Inr w'"
  proof -
    from cleanup_cases [OF c] show ?thesis
    proof (elim disjE exE conjE)
      fix w1 assume u: "unlink w (inventory_path_of p a) = Inr w1"
        and e: "listdir w1 ?d = Inr []"
      from unlink_keeps_listed [OF u le(4) le(5) neq] e show ?thesis
        by (auto simp: listdir_def split: if_splits)
    qed auto
  qed
  have keep: "isdir w' ?d \<and> lookup w' (inventory_path_of p b) = lookup w (inventory_path_of p b)
      \<and> fname b \<in> set (children w' ?d)"
  proof (rule disjE [OF same])
    assume "w' = w"
    with le l n show ?thesis by (auto simp: listdir_def split: if_splits)
  next
    assume u: "unlink w (inventory_path_of p a) = Inr w'"
    from unlink_keeps_listed [OF u le(4) le(5) neq] le(2) neq nd ipb show ?thesis
      by (simp add: isdir_def lookup_unlink [OF u])
  qed
  with le(3) ipb c show ?thesis
    by (auto simp: listdir_def path_exists_def)
qed

lemma cleanup_removes_dir_only_if_empty:
  assumes "cleanup p a w = Inr w'" "path_exists w (storage_path p)"
    "\<not> path_exists w' (storage_path p)"
  shows "storage_path_tmp p \<and>
     (\<exists>w1. unlink w (inventory_path_of p a) = Inr w1 \<and> listdir w1 (storage_path p) = Inr [])"
proof -
  have nd: "inventory_path_of p a \<noteq> storage_path p"
    by (simp add: inventory_path_of_def path_join_fname_neq)
  from cleanup_cases [OF assms(1)] show ?thesis
  proof (elim disjE exE conjE)
    assume "w' = w"
    with assms show ?thesis by simp
  next
    fix w1 assume u: "unlink w (inventory_path_of p a) = Inr w1" and "w' = w1"
    with assms nd show ?thesis by (simp add: path_exists_def lookup_unlink [OF u])
  next
    fix w1 assume "unlink w (inventory_path_of p a) = Inr w1" "storage_path_tmp p"
      "listdir w1 (storage_path p) = Inr []"
    then show ?thesis by blast
  qed
qed


text \<open>
  C5. When the storage directory lists the inventory file of a cluster \<^verbatim>\<open>b\<close>, \<^verbatim>\<open>cleanup\<close>
  for a cluster \<^verbatim>\<open>a\<close> of another name returns with the directory still there and the
  file of \<^verbatim>\<open>b\<close> still listed in it, with the content it had. Whenever \<^verbatim>\<open>cleanup\<close> does
  remove a storage directory that existed, the directory is ephemeral, the inventory
  file of \<^verbatim>\<open>a\<close> has been removed, and the directory was empty after that removal.
\<close>

theorem cleanup_spares_shared_storage:
  "(listdir w (storage_path p) = Inr names \<and> fname b \<in> set names
      \<and> cluster_name a \<noteq> cluster_name b \<longrightarrow>
      (\<exists>w1. cleanup p a w = Inr w1 \<and> isdir w1 (storage_path p)
          \<and> lookup w1 (inventory_path_of p b) = lookup w (inventory_path_of p b)
          \<and> path_exists w1 (inventory_path_of p b)
          \<and> (\<exists>names1. listdir w1 (storage_path p) = Inr names1 \<and> fname b \<in> set names1)))
   \<and> (cleanup p a w = Inr w' \<and> path_exists w (storage_path p)
        \<and> \<not> path_exists w' (storage_path p) \<longrightarrow>
      storage_path_tmp p \<and>
      (\<exists>w1. unlink w (inventory_path_of p a) = Inr w1 \<and> listdir w1 (storage_path p) = Inr []))"
  using cleanup_keeps_listed [of w p names b a] cleanup_removes_dir_only_if_empty [of p a w w']
  by blast

theorem cleanup_spares_shared_storage_witness:
  "listdir ex_world_shared (storage_path ex_provider)
      = Inr [''ansible-inventory.a'', ''ansible-inventory.b'']
   \<and> fname ex_cluster_b = ''ansible-inventory.b''
   \<and> cluster_name ex_cluster \<noteq> cluster_name ex_cluster_b
   \<and> (\<exists>w1. cleanup ex_provider ex_cluster ex_world_shared = Inr w1
         \<and> isdir w1 (storage_path ex_provider)
         \<and> lookup w1 (inventory_path_of ex_provider ex_cluster_b) = Some (File ''B''))
   \<and> cleanup ex_provider ex_cluster ex_world_written
       = Inr (ex_world\<lparr>fs := [(''/pb/site.yml'', File ''- hosts: all'')]\<rparr>)
   \<and> path_exists ex_world_written (storage_path ex_provider)
   \<and> \<not> path_exists (ex_world\<lparr>fs := [(''/pb/site.yml'', File ''- hosts: all'')]\<rparr>)
         (storage_path ex_provider)
   \<and> storage_path_tmp ex_provider
   \<and> (\<exists>w1. unlink ex_world_written (inventory_path_of ex_provider ex_cluster) = Inr w1
         \<and> listdir w1 (storage_path ex_provider) = Inr [])"
proof -
  have sp: "storage_path ex_provider = ''/tmp/x''" by (simp add: ex_provider_def)
  have l: "listdir ex_world_shared (storage_path ex_provider)
      = Inr [''ansible-inventory.a'', ''ansible-inventory.b'']"
    by (simp add: sp ex_listdir_shared)
  have f: "fname ex_cluster_b = ''ansible-inventory.b''"
    by (simp add: fname_def ex_cluster_b_def inventory_file_ending_def)
  have n: "cluster_name ex_cluster \<noteq> cluster_name ex_cluster_b"
    by (simp add: ex_cluster_b_def ex_cluster_def)
  have b: "lookup ex_world_shared (inventory_path_of ex_provider ex_cluster_b) = Some (File ''B'')"
    by (simp add: sp f inventory_path_of_def path_join_def lookup_def ex_world_shared_def)
  have e: "path_exists ex_world_written (storage_path ex_provider)"
    by (simp add: sp path_exists_def lookup_def ex_world_written_def ex_fs_def)
  have g: "\<not> path_exists (ex_world\<lparr>fs := [(''/pb/site.yml'', File ''- hosts: all'')]\<rparr>)
         (storage_path ex_provider)"
    by (simp add: sp path_exists_def lookup_def)
  note t1 = cleanup_spares_shared_storage
    [where w = ex_world_shared and p = ex_provider and a = ex_cluster and b = ex_cluster_b
      and names = "[''ansible-inventory.a'', ''ansible-inventory.b'']"]
  note t2 = cleanup_spares_shared_storage
    [where w = ex_world_written and p = ex_provider and a = ex_cluster
      and w' = "ex_world\<lparr>fs := [(''/pb/site.yml'', File ''- hosts: all'')]\<rparr>"]
  from t1 l f n b have 1: "\<exists>w1. cleanup ex_provider ex_cluster ex_world_shared = Inr w1
         \<and> isdir w1 (storage_path ex_provider)
         \<and> lookup w1 (inventory_path_of ex_provider ex_cluster_b) = Some (File ''B'')"
    by auto
  from t2 ex_cleanup_last e g have 2: "storage_path_tmp ex_provider
   \<and> (\<exists>w1. unlink ex_world_written (inventory_path_of ex_provider ex_cluster) = Inr w1
         \<and> listdir w1 (storage_path ex_provider) = Inr [])"
    by blast
  from l f n 1 ex_cleanup_last e g 2 show ?thesis by blast
qed

text \<open>
  C6, as the code has it. \<^verbatim>\<open>cleanup\<close> never raises. A second call in a row changes
  nothing more. When the storage directory or the inventory file does not exist,
  nothing is changed. An error of \<^verbatim>\<open>os.unlink\<close> is dropped and leaves the world as it
  was. The inventory file exists after \<^verbatim>\<open>cleanup\<close> only when nothing was changed, and,
  if the storage directory exists, only because \<^verbatim>\<open>os.unlink\<close> raised.
\<close>

theorem cleanup_never_raises:
  "(\<exists>w1. cleanup p c w = Inr w1)
   \<and> (cleanup p c w = Inr w' \<longrightarrow> cleanup p c w' = Inr w')
   \<and> (storage_path p = [] \<or> \<not> path_exists w (storage_path p)
        \<or> \<not> path_exists w (inventory_path_of p c) \<longrightarrow> cleanup p c w = Inr w)
   \<and> (unlink w (inventory_path_of p c) = Inl ex \<longrightarrow> cleanup p c w = Inr w)
   \<and> (cleanup p c w = Inr w' \<and> path_exists w' (inventory_path_of p c) \<longrightarrow>
        w' = w \<and> (storage_path p = [] \<or> \<not> path_exists w (storage_path p)
                   \<or> unlink w (inventory_path_of p c) = Inl OSError))"
proof -
  have sw: "unlink w (inventory_path_of p c) = Inl ex \<longrightarrow> cleanup p c w = Inr w"
    by (auto simp: cleanup_def inventory_path_of_def except_OSError_def Let_def
        dest: unlink_error)
  from cleanup_total [of p c w] cleanup_twice [of p c w w'] cleanup_noop [of p w c]
    cleanup_residual [of p c w w'] sw
  show ?thesis by blast
qed

theorem cleanup_never_raises_witness:
  "cleanup ex_provider ex_cluster ex_world_written
       = Inr (ex_world\<lparr>fs := [(''/pb/site.yml'', File ''- hosts: all'')]\<rparr>)
   \<and> cleanup ex_provider ex_cluster (ex_world\<lparr>fs := [(''/pb/site.yml'', File ''- hosts: all'')]\<rparr>)
       = Inr (ex_world\<lparr>fs := [(''/pb/site.yml'', File ''- hosts: all'')]\<rparr>)
   \<and> \<not> path_exists ex_world (inventory_path_of ex_provider ex_cluster)
   \<and> cleanup ex_provider ex_cluster ex_world = Inr ex_world
   \<and> unlink ex_world_refused (inventory_path_of ex_provider ex_cluster) = Inl OSError
   \<and> cleanup ex_provider ex_cluster ex_world_refused = Inr ex_world_refused
   \<and> path_exists ex_world_refused (inventory_path_of ex_provider ex_cluster)"
proof -
  let ?g = "ex_world\<lparr>fs := [(''/pb/site.yml'', File ''- hosts: all'')]\<rparr>"
  have a: "\<not> path_exists ex_world (inventory_path_of ex_provider ex_cluster)"
    by (simp add: ex_world_def ex_fs_def ex_provider_def ex_cluster_def ex_cleanup_defs)
  from cleanup_never_raises [where p = ex_provider and c = ex_cluster and w = ex_world_written
      and w' = ?g] ex_cleanup_last
  have 1: "cleanup ex_provider ex_cluster ?g = Inr ?g" by blast
  from cleanup_never_raises [where p = ex_provider and c = ex_cluster and w = ex_world] a
  have 2: "cleanup ex_provider ex_cluster ex_world = Inr ex_world" by blast
  from cleanup_never_raises [where p = ex_provider and c = ex_cluster and w = ex_world_refused
      and ex = OSError] ex_refused_exists(3)
  have 3: "cleanup ex_provider ex_cluster ex_world_refused = Inr ex_world_refused" by blast
  from ex_cleanup_last 1 a 2 ex_refused_exists(3) 3 ex_refused_exists(1) show ?thesis by blast
qed

text \<open>
  C6, as stated, fails when the removal of the file is refused: the error is dropped,
  the call returns the world unchanged (so a second call does the same), and the
  inventory file is still there.
\<close>

theorem cleanup_residual_counterexample:
  "isfile ex_world_refused (inventory_path_of ex_provider ex_cluster)
   \<and> cleanup ex_provider ex_cluster ex_world_refused = Inr ex_world_refused
   \<and> path_exists ex_world_refused (inventory_path_of ex_provider ex_cluster)"
  by (simp add: ex_cleanup_refused ex_refused_exists)

subsection \<open>The inventory file\<close>

text \<open>
  A second provider, with two groups and a variable for the kind \<^verbatim>\<open>frontend\<close>, and a
  world whose dictionaries are iterated in the order of the length of their keys.
\<close>

lemma ex_two_groups:
  "build_inventory
     (ex_provider\<lparr>groups := [''frontend'' \<mapsto> [''web'', ''db'']],
                   environment := [''frontend'' \<mapsto> [(''FOO'', ''bar'')]]\<rparr>)
     ex_cluster (ex_world\<lparr>dict_rank := length\<rparr>)
   = (Inr (Some ''/tmp/x/ansible-inventory.a''),
      ex_provider\<lparr>groups := [''frontend'' \<mapsto> [''web'', ''db'']],
                   environment := [''frontend'' \<mapsto> [(''FOO'', ''bar'')]]\<rparr>,
      ex_world\<lparr>dict_rank := length,
        fs := (''/tmp/x/ansible-inventory.a'',
               File (file_of_lines
                 [[], ''[db]'', ''n1 ansible_ssh_host=10.0.0.1 ansible_ssh_user=ubuntu FOO=bar'',
                  [], ''[web]'', ''n1 ansible_ssh_host=10.0.0.1 ansible_ssh_user=ubuntu FOO=bar'']))
              # ex_fs\<rparr>)"
proof -
  have i: "inventory_of
     (ex_provider\<lparr>groups := [''frontend'' \<mapsto> [''web'', ''db'']],
                   environment := [''frontend'' \<mapsto> [(''FOO'', ''bar'')]]\<rparr>) ex_cluster
    = [(''web'', [(''n1'', ''10.0.0.1'', ''ansible_ssh_user=ubuntu FOO=bar'')]),
       (''db'', [(''n1'', ''10.0.0.1'', ''ansible_ssh_user=ubuntu FOO=bar'')])]"
    by (simp add: inventory_of_def ex_cluster_def ex_node_def host_entry_def extra_vars_def)
  show ?thesis
    by (simp add: build_inventory_def i)
      (simp add: ex_provider_def ex_cluster_def ex_world_def ex_fs_def
        fname_def inventory_file_ending_def path_join_def write_file_def writable_def
        isdir_def lookup_def dirname_def rstrip_slash_def remove_path_def hostline_def Let_def
        dict_items_def file_of_lines_def)
qed

text \<open>
  C4, as the code has it. For a cluster with a node whose kind is mapped to at least one
  group, when the inventory file can be opened for writing, \<^verbatim>\<open>_build_inventory\<close> writes
  the file and returns its path. The file consists, for every group of the document in
  the order in which the dictionary is iterated, of an empty line, the line \<^verbatim>\<open>[group]\<close>
  and one line \<^verbatim>\<open>name ansible_ssh_host=address variables\<close> per host. The sections are
  the groups of the document, each once; the groups of the document are the groups
  configured for the kind of some node; the hosts of a group are the entries of the
  nodes whose kind is mapped to it, in the order of the nodes; the variables of an
  entry are \<^verbatim>\<open>ansible_ssh_user=\<close> with the login user of the node, followed by
  \<^verbatim>\<open>key=value\<close> for each variable configured for the kind, each after one blank. The
  witness is the example of the specification, and a provider with two groups.
\<close>

theorem inventory_file_layout:
  assumes "n \<in> set (get_all_nodes c)" and "groups p (kind n) = Some gs" and "gs \<noteq> []"
    and "storage_path p \<noteq> []" and "writable w (inventory_path_of p c)"
  shows "build_inventory p c w =
       (Inr (Some (inventory_path_of p c)), p,
        w\<lparr>fs := (inventory_path_of p c,
                  File (file_of_lines (inventory_lines (dict_items w (inventory_of p c)))))
                 # remove_path (inventory_path_of p c) (fs w)\<rparr>)
    \<and> mset (dict_items w (inventory_of p c)) = mset (inventory_of p c)
    \<and> distinct (map fst (inventory_of p c))
    \<and> set (map fst (inventory_of p c)) = (\<Union>n \<in> set (get_all_nodes c). set (groups_of p n))
    \<and> (\<forall>(g, hs) \<in> set (inventory_of p c). hs = hosts_in_group p (get_all_nodes c) g)
    \<and> (\<forall>n. host_entry p n = (name n, preferred_ip n, variable_string p n))"
proof -
  have 1: "build_inventory p c w =
       (Inr (Some (inventory_path_of p c)), p,
        w\<lparr>fs := (inventory_path_of p c,
                  File (file_of_lines (inventory_lines (dict_items w (inventory_of p c)))))
                 # remove_path (inventory_path_of p c) (fs w)\<rparr>)"
    using build_inventory_writes [OF node_with_group [OF assms(1-3)] assms(4,5)]
      write_sections_eq [of "[]" "dict_items w (inventory_of p c)"]
    by simp
  have 3: "\<forall>(g, hs) \<in> set (inventory_of p c). hs = hosts_in_group p (get_all_nodes c) g"
    using inventory_sections(3) [of _ _ p c] by blast
  from 1 3 mset_dict_items [of w "inventory_of p c"] inventory_sections(1,2) [of p c]
    host_entry_fields [of p]
  show ?thesis by blast
qed

theorem inventory_file_layout_witness:
  "ex_node \<in> set (get_all_nodes ex_cluster)
   \<and> groups ex_provider (kind ex_node) = Some [''web'']
   \<and> storage_path ex_provider = ''/tmp/x''
   \<and> writable ex_world (inventory_path_of ex_provider ex_cluster)
   \<and> build_inventory ex_provider ex_cluster ex_world =
       (Inr (Some ''/tmp/x/ansible-inventory.a''), ex_provider,
        ex_world\<lparr>fs := (''/tmp/x/ansible-inventory.a'',
                  File (file_of_lines
                    [[], ''[web]'', ''n1 ansible_ssh_host=10.0.0.1 ansible_ssh_user=ubuntu'']))
                 # ex_fs\<rparr>)
   \<and> inventory_of ex_provider ex_cluster = [(''web'', [host_entry ex_provider ex_node])]
   \<and> hosts_in_group ex_provider (get_all_nodes ex_cluster) ''web'' = [host_entry ex_provider ex_node]
   \<and> host_entry ex_provider ex_node = (''n1'', ''10.0.0.1'', ''ansible_ssh_user=ubuntu'')
   \<and> build_inventory
       (ex_provider\<lparr>groups := [''frontend'' \<mapsto> [''web'', ''db'']],
                     environment := [''frontend'' \<mapsto> [(''FOO'', ''bar'')]]\<rparr>)
       ex_cluster (ex_world\<lparr>dict_rank := length\<rparr>)
     = (Inr (Some ''/tmp/x/ansible-inventory.a''),
        ex_provider\<lparr>groups := [''frontend'' \<mapsto> [''web'', ''db'']],
                     environment := [''frontend'' \<mapsto> [(''FOO'', ''bar'')]]\<rparr>,
        ex_world\<lparr>dict_rank := length,
          fs := (''/tmp/x/ansible-inventory.a'',
                 File (file_of_lines
                   [[], ''[db]'', ''n1 ansible_ssh_host=10.0.0.1 ansible_ssh_user=ubuntu FOO=bar'',
                    [], ''[web]'', ''n1 ansible_ssh_host=10.0.0.1 ansible_ssh_user=ubuntu FOO=bar'']))
                # ex_fs\<rparr>)"
proof -
  have n: "ex_node \<in> set (get_all_nodes ex_cluster)"
    by (simp add: ex_cluster_def)
  have g: "groups ex_provider (kind ex_node) = Some [''web'']"
    by (simp add: ex_provider_def ex_node_def)
  have gs: "[''web''] \<noteq> []" by simp
  have sp: "storage_path ex_provider = ''/tmp/x''"
    by (simp add: ex_provider_def)
  have sp': "storage_path ex_provider \<noteq> []"
    by (simp add: sp)
  have ip: "inventory_path_of ex_provider ex_cluster = ''/tmp/x/ansible-inventory.a''"
    by (simp add: inventory_path_of_def path_join_def fname_def inventory_file_ending_def
        ex_provider_def ex_cluster_def)
  have wr: "writable ex_world (inventory_path_of ex_provider ex_cluster)"
    by (simp add: ip writable_def isdir_def lookup_def dirname_def rstrip_slash_def
        ex_world_def ex_fs_def)
  have h: "host_entry ex_provider ex_node = (''n1'', ''10.0.0.1'', ''ansible_ssh_user=ubuntu'')"
    by (simp add: host_entry_def extra_vars_def ex_provider_def ex_node_def)
  have i: "inventory_of ex_provider ex_cluster = [(''web'', [host_entry ex_provider ex_node])]"
    by (simp add: ex_inventory h)
  have d: "dict_items ex_world (inventory_of ex_provider ex_cluster)
      = [(''web'', [(''n1'', ''10.0.0.1'', ''ansible_ssh_user=ubuntu'')])]"
    by (simp add: ex_inventory dict_items_def)
  have l: "inventory_lines (dict_items ex_world (inventory_of ex_provider ex_cluster)) =
      [[], ''[web]'', ''n1 ansible_ssh_host=10.0.0.1 ansible_ssh_user=ubuntu'']"
    by (simp add: d inventory_lines_def section_lines_def host_line_text_def)
  have r: "remove_path ''/tmp/x/ansible-inventory.a'' (fs ex_world) = ex_fs"
    by (simp add: remove_path_def ex_world_def ex_fs_def)
  note t = inventory_file_layout [OF n g gs sp' wr]
  from t have b: "build_inventory ex_provider ex_cluster ex_world =
       (Inr (Some ''/tmp/x/ansible-inventory.a''), ex_provider,
        ex_world\<lparr>fs := (''/tmp/x/ansible-inventory.a'',
                  File (file_of_lines
                    [[], ''[web]'', ''n1 ansible_ssh_host=10.0.0.1 ansible_ssh_user=ubuntu'']))
                 # ex_fs\<rparr>)"
    by (simp only: ip l r)
  from t have "\<forall>(g, hs) \<in> set (inventory_of ex_provider ex_cluster).
      hs = hosts_in_group ex_provider (get_all_nodes ex_cluster) g"
    by blast
  then have hg: "hosts_in_group ex_provider (get_all_nodes ex_cluster) ''web''
      = [host_entry ex_provider ex_node]"
    by (simp add: i)
  from n g sp wr b i hg h ex_two_groups show ?thesis by blast
qed

text \<open>
  C4, as stated, fails for a node whose kind is mapped to the empty list of groups: the
  kind is configured, but the document is empty, \<^verbatim>\<open>_build_inventory\<close> returns \<^verbatim>\<open>None\<close> and
  no file is written. With a node mapped to a group and a storage directory that does
  not exist, \<^verbatim>\<open>open\<close> raises \<^verbatim>\<open>IOError\<close> and no file is written either.
\<close>

theorem inventory_file_layout_counterexample:
  "get_all_nodes ex_cluster = [ex_node]
   \<and> groups (ex_provider\<lparr>groups := [''frontend'' \<mapsto> []]\<rparr>) (kind ex_node) = Some []
   \<and> build_inventory (ex_provider\<lparr>groups := [''frontend'' \<mapsto> []]\<rparr>) ex_cluster ex_world
       = (Inr None, ex_provider\<lparr>groups := [''frontend'' \<mapsto> []]\<rparr>, ex_world)
   \<and> \<not> path_exists ex_world
         (inventory_path_of (ex_provider\<lparr>groups := [''frontend'' \<mapsto> []]\<rparr>) ex_cluster)
   \<and> groups ex_provider (kind ex_node) = Some [''web'']
   \<and> build_inventory ex_provider ex_cluster (ex_world\<lparr>fs := [(''/pb/site.yml'', File [])]\<rparr>)
       = (Inl IOError, ex_provider, ex_world\<lparr>fs := [(''/pb/site.yml'', File [])]\<rparr>)"
proof -
  have "inventory_of (ex_provider\<lparr>groups := [''frontend'' \<mapsto> []]\<rparr>) ex_cluster = []"
    by (simp add: inventory_of_def ex_cluster_def ex_node_def)
  then have "build_inventory (ex_provider\<lparr>groups := [''frontend'' \<mapsto> []]\<rparr>) ex_cluster ex_world
      = (Inr None, ex_provider\<lparr>groups := [''frontend'' \<mapsto> []]\<rparr>, ex_world)"
    by (simp add: build_inventory_def)
  moreover have "\<not> path_exists ex_world
         (inventory_path_of (ex_provider\<lparr>groups := [''frontend'' \<mapsto> []]\<rparr>) ex_cluster)"
    by (simp add: path_exists_def lookup_def inventory_path_of_def path_join_def fname_def
        inventory_file_ending_def ex_provider_def ex_cluster_def ex_world_def ex_fs_def)
  moreover have "build_inventory ex_provider ex_cluster (ex_world\<lparr>fs := [(''/pb/site.yml'', File [])]\<rparr>)
       = (Inl IOError, ex_provider, ex_world\<lparr>fs := [(''/pb/site.yml'', File [])]\<rparr>)"
    by (simp add: build_inventory_def ex_inventory)
      (simp add: ex_provider_def ex_cluster_def ex_world_def fname_def inventory_file_ending_def
        path_join_def write_file_def writable_def isdir_def lookup_def dirname_def
        rstrip_slash_def Let_def)
  ultimately show ?thesis
    by (simp add: ex_cluster_def ex_node_def ex_provider_def)
qed

end
